theory Spec2Isabelle
  imports Main "HOL-Library.Sublist"
begin

section \<open>PyPal: the response engine of \<^verbatim>\<open>chatbot.py\<close>\<close>

text \<open>
  The development embeds the text-processing core of class \<^verbatim>\<open>PyPalChatbot\<close>:
  the four intent detectors, \<^verbatim>\<open>detect_name_in_message\<close>, \<^verbatim>\<open>get_current_time\<close>,
  \<^verbatim>\<open>generate_response\<close> and \<^verbatim>\<open>log_message\<close>.

  A Python \<^verbatim>\<open>str\<close> is a sequence of Unicode code points and is modelled as a list of
  integers; \<open>lit\<close> turns an ASCII literal into such a list. The string methods
  are those of CPython: \<^verbatim>\<open>lower\<close> and \<^verbatim>\<open>title\<close> use the full case mappings, which may
  put several code points for one, and \<^verbatim>\<open>title\<close> tracks whether the previous character
  is cased.

  Character data. White space is complete (every code point for which \<^verbatim>\<open>str.isspace\<close>
  holds). Letters, case and case mappings are given for ASCII and for the code points
  U+00C9, U+00E9, U+0130, U+02BB, U+02BC and U+4E2D; any other code point is taken as an
  uncased character that is not a letter. Statements whose truth depends on the data of
  further code points are made for ASCII input.

  \<^verbatim>\<open>random.choice\<close> draws through an explicit number \<open>r\<close>, a reading of the clock
  is an explicit \<open>datetime\<close> value, and the file system answers through an explicit
  outcome.
\<close>

subsection \<open>Python's string built-ins\<close>

type_synonym codepoint = int

type_synonym pystr = "codepoint list"

definition lit :: "string \<Rightarrow> pystr" where
  "lit s = map of_char s"

text \<open>\<^verbatim>\<open>s.isascii()\<close>\<close>

definition isascii :: "pystr \<Rightarrow> bool" where
  "isascii s = list_all (\<lambda>c. c < 128) s"

datatype py_error = IndexError | OSError pystr

text \<open>\<^verbatim>\<open>c.isspace()\<close>: U+0009..U+000D, U+001C..U+0020, U+0085, U+00A0, U+1680,
  U+2000..U+200A, U+2028, U+2029, U+202F, U+205F and U+3000.\<close>

definition isspace_chr :: "codepoint \<Rightarrow> bool" where
  "isspace_chr c =
     ((9 \<le> c \<and> c \<le> 13) \<or> (28 \<le> c \<and> c \<le> 32) \<or> c = 0x85 \<or> c = 0xA0 \<or> c = 0x1680
      \<or> (0x2000 \<le> c \<and> c \<le> 0x200A) \<or> c = 0x2028 \<or> c = 0x2029 \<or> c = 0x202F
      \<or> c = 0x205F \<or> c = 0x3000)"

text \<open>\<^verbatim>\<open>c.isupper()\<close> and \<^verbatim>\<open>c.islower()\<close>: A..Z, U+00C9 and U+0130 are upper case; a..z
  and U+00E9 are lower case. These are the cased characters of the data.\<close>

definition isupper_chr :: "codepoint \<Rightarrow> bool" where
  "isupper_chr c = ((65 \<le> c \<and> c \<le> 90) \<or> c = 0xC9 \<or> c = 0x130)"

definition islower_chr :: "codepoint \<Rightarrow> bool" where
  "islower_chr c = ((97 \<le> c \<and> c \<le> 122) \<or> c = 0xE9)"

definition iscased_chr :: "codepoint \<Rightarrow> bool" where
  "iscased_chr c = (isupper_chr c \<or> islower_chr c)"

text \<open>\<^verbatim>\<open>c.isalpha()\<close>: the cased letters and the uncased letters U+02BB, U+02BC (modifier
  letters) and U+4E2D (an ideograph).\<close>

definition isalpha_chr :: "codepoint \<Rightarrow> bool" where
  "isalpha_chr c = (iscased_chr c \<or> c = 0x2BB \<or> c = 0x2BC \<or> c = 0x4E2D)"

text \<open>The full lower-case and title-case mappings of one character. U+0130 has the
  lower case U+0069 U+0307.\<close>

definition lower_full :: "codepoint \<Rightarrow> pystr" where
  "lower_full c =
     (if 65 \<le> c \<and> c \<le> 90 then [c + 32]
      else if c = 0xC9 then [0xE9]
      else if c = 0x130 then [0x69, 0x307]
      else [c])"

definition title_full :: "codepoint \<Rightarrow> pystr" where
  "title_full c =
     (if 97 \<le> c \<and> c \<le> 122 then [c - 32]
      else if c = 0xE9 then [0xC9]
      else [c])"

text \<open>\<^verbatim>\<open>s.lower()\<close>\<close>

definition lower :: "pystr \<Rightarrow> pystr" where
  "lower s = concat (map lower_full s)"

text \<open>\<^verbatim>\<open>s.isalpha()\<close>: every character is alphabetic and there is at least one.\<close>

definition isalpha :: "pystr \<Rightarrow> bool" where
  "isalpha s = (s \<noteq> [] \<and> list_all isalpha_chr s)"

text \<open>\<^verbatim>\<open>s.strip(chars)\<close> removes the characters of \<open>chars\<close> at both ends;
  \<^verbatim>\<open>s.strip()\<close> removes white space at both ends.\<close>

definition strip_chars :: "pystr \<Rightarrow> pystr \<Rightarrow> pystr" where
  "strip_chars chars s =
     rev (dropWhile (\<lambda>c. c \<in> set chars) (rev (dropWhile (\<lambda>c. c \<in> set chars) s)))"

definition strip :: "pystr \<Rightarrow> pystr" where
  "strip s = rev (dropWhile isspace_chr (rev (dropWhile isspace_chr s)))"

text \<open>\<^verbatim>\<open>s.split()\<close>: the maximal runs of characters that are not white space.\<close>

function split :: "pystr \<Rightarrow> pystr list" where
  "split [] = []"
| "split (c # cs) =
     (if isspace_chr c then split cs
      else (c # takeWhile (\<lambda>d. \<not> isspace_chr d) cs) # split (dropWhile (\<lambda>d. \<not> isspace_chr d) cs))"
  by pat_completeness auto
termination
  by (relation "measure length") (auto simp: less_Suc_eq_le length_dropWhile_le)

text \<open>\<^verbatim>\<open>s.replace(' ', '')\<close>\<close>

definition replace_spaces :: "pystr \<Rightarrow> pystr" where
  "replace_spaces s = filter (\<lambda>c. c \<noteq> 32) s"

text \<open>\<^verbatim>\<open>s.title()\<close>, as CPython computes it: a character is replaced by its lower case
  when the previous character is cased and by its title case otherwise; \<open>prev\<close> is
  CPython's \<^verbatim>\<open>previous_is_cased\<close>.\<close>

fun title_from :: "bool \<Rightarrow> pystr \<Rightarrow> pystr" where
  "title_from prev [] = []"
| "title_from prev (c # cs) =
     (if prev then lower_full c else title_full c) @ title_from (iscased_chr c) cs"

definition title :: "pystr \<Rightarrow> pystr" where
  "title s = title_from False s"

text \<open>\<^verbatim>\<open>p in s\<close> on strings: \<open>p\<close> occurs in \<open>s\<close> as a contiguous substring.\<close>

fun py_in :: "pystr \<Rightarrow> pystr \<Rightarrow> bool" where
  "py_in p [] = (p = [])"
| "py_in p (c # cs) = (prefix p (c # cs) \<or> py_in p cs)"

text \<open>\<^verbatim>\<open>s.find(p)\<close>: the index of the first occurrence of \<open>p\<close> in \<open>s\<close>, or -1.\<close>

fun find_str :: "pystr \<Rightarrow> pystr \<Rightarrow> int" where
  "find_str p [] = (if p = [] then 0 else - 1)"
| "find_str p (c # cs) =
     (if prefix p (c # cs) then 0
      else (let i = find_str p cs in if i < 0 then - 1 else i + 1))"

text \<open>\<^verbatim>\<open>s[i:]\<close>: a negative index counts from the end, and the slice is clipped to the
  string.\<close>

definition slice_from :: "pystr \<Rightarrow> int \<Rightarrow> pystr" where
  "slice_from s i = (if i < 0 then drop (nat (int (length s) + i)) s else drop (nat i) s)"

text \<open>\<^verbatim>\<open>any(f(x) for x in xs)\<close>\<close>

fun py_any :: "('a \<Rightarrow> bool) \<Rightarrow> 'a list \<Rightarrow> bool" where
  "py_any f [] = False"
| "py_any f (x # xs) = (f x \<or> py_any f xs)"

text \<open>\<^verbatim>\<open>random.choice(xs)\<close> with the draw \<open>r\<close> made explicit; it raises
  \<^verbatim>\<open>IndexError\<close> on an empty sequence.\<close>

definition choice :: "'a list \<Rightarrow> nat \<Rightarrow> py_error + 'a" where
  "choice xs r = (if xs = [] then Inl IndexError else Inr (xs ! (r mod length xs)))"

subsection \<open>Session state and clock\<close>

text \<open>The two fields of \<^verbatim>\<open>PyPalChatbot\<close> that the engine reads and writes; \<^verbatim>\<open>__init__\<close>
  sets them to \<^verbatim>\<open>None\<close> and \<^verbatim>\<open>False\<close>.\<close>

record pypal =
  user_name :: "pystr option"
  conversation_started :: bool

definition init_pypal :: pypal where
  "init_pypal = \<lparr>user_name = None, conversation_started = False\<rparr>"

text \<open>Python's truth value of \<^verbatim>\<open>self.user_name\<close>: \<^verbatim>\<open>None\<close> and the empty string are
  false. \<open>fmt\<close> is the text an f-string puts for the value.\<close>

fun truthy :: "pystr option \<Rightarrow> bool" where
  "truthy None = False"
| "truthy (Some s) = (s \<noteq> [])"

fun fmt :: "pystr option \<Rightarrow> pystr" where
  "fmt None = lit ''None''"
| "fmt (Some s) = s"

text \<open>A value of \<^verbatim>\<open>datetime.datetime\<close>, as \<^verbatim>\<open>datetime.datetime.now()\<close> returns it. The
  class keeps its fields in the ranges of \<open>valid_datetime\<close>.\<close>

record datetime =
  year :: nat
  month :: nat
  day :: nat
  hour :: nat
  minute :: nat
  second :: nat

definition valid_datetime :: "datetime \<Rightarrow> bool" where
  "valid_datetime t =
     (1 \<le> year t \<and> year t \<le> 9999 \<and> 1 \<le> month t \<and> month t \<le> 12 \<and> 1 \<le> day t \<and> day t \<le> 31
      \<and> hour t < 24 \<and> minute t < 60 \<and> second t < 60)"

definition digit_chr :: "nat \<Rightarrow> codepoint" where
  "digit_chr d = 48 + int (d mod 10)"

text \<open>Zero-padded decimal fields of \<^verbatim>\<open>strftime\<close>: two digits for \<^verbatim>\<open>%I %H %M %S %d %m\<close>,
  four for \<^verbatim>\<open>%Y\<close> (as the Python documentation gives it: 0001 .. 9999).\<close>

definition dec2 :: "nat \<Rightarrow> pystr" where
  "dec2 n = [digit_chr (n div 10), digit_chr n]"

definition dec4 :: "nat \<Rightarrow> pystr" where
  "dec4 n = [digit_chr (n div 1000), digit_chr (n div 100), digit_chr (n div 10), digit_chr n]"

definition month_names :: "pystr list" where
  "month_names =
     [lit ''January'', lit ''February'', lit ''March'', lit ''April'', lit ''May'', lit ''June'',
      lit ''July'', lit ''August'', lit ''September'', lit ''October'', lit ''November'',
      lit ''December'']"

text \<open>\<^verbatim>\<open>%B\<close>, \<^verbatim>\<open>%I\<close> and \<^verbatim>\<open>%p\<close> in the C locale.\<close>

definition month_name :: "nat \<Rightarrow> pystr" where
  "month_name m = month_names ! (m - 1)"

definition hour12 :: "nat \<Rightarrow> nat" where
  "hour12 h = (if h mod 12 = 0 then 12 else h mod 12)"

definition am_pm :: "nat \<Rightarrow> pystr" where
  "am_pm h = (if h < 12 then lit ''AM'' else lit ''PM'')"

text \<open>\<^verbatim>\<open>now.strftime("It's currently %I:%M %p on %B %d, %Y")\<close>\<close>

definition get_current_time :: "datetime \<Rightarrow> pystr" where
  "get_current_time now =
     lit ''It's currently '' @ dec2 (hour12 (hour now)) @ lit '':'' @ dec2 (minute now) @ lit '' ''
       @ am_pm (hour now) @ lit '' on '' @ month_name (month now) @ lit '' '' @ dec2 (day now)
       @ lit '', '' @ dec4 (year now)"

subsection \<open>Intent detectors\<close>

definition greetings :: "pystr list" where
  "greetings =
     [lit ''hi'', lit ''hello'', lit ''hey'', lit ''hiya'', lit ''good morning'',
      lit ''good afternoon'', lit ''good evening'', lit ''sup'', lit ''yo'']"

definition how_are_you_phrases :: "pystr list" where
  "how_are_you_phrases =
     [lit ''how are you'', lit ''how do you do'', lit ''how are things'', lit ''how's it going'',
      lit ''how you doing'']"

definition time_keywords :: "pystr list" where
  "time_keywords =
     [lit ''time'', lit ''clock'', lit ''what time is it'', lit ''current time'', lit ''time is it'',
      lit ''what time'']"

definition goodbye_phrases :: "pystr list" where
  "goodbye_phrases =
     [lit ''bye'', lit ''goodbye'', lit ''see you'', lit ''farewell'', lit ''exit'', lit ''quit'',
      lit ''stop'', lit ''close'', lit ''end'']"

definition detect_greeting :: "pystr \<Rightarrow> bool" where
  "detect_greeting user_input =
     (let user_input_lower = lower user_input
      in py_any (\<lambda>greeting. py_in greeting user_input_lower) greetings)"

definition detect_how_are_you :: "pystr \<Rightarrow> bool" where
  "detect_how_are_you user_input =
     (let user_input_lower = lower user_input
      in py_any (\<lambda>phrase. py_in phrase user_input_lower) how_are_you_phrases)"

definition detect_time_request :: "pystr \<Rightarrow> bool" where
  "detect_time_request user_input =
     (let user_input_lower = lower user_input
      in py_any (\<lambda>keyword. py_in keyword user_input_lower) time_keywords)"

definition detect_goodbye :: "pystr \<Rightarrow> bool" where
  "detect_goodbye user_input =
     (let user_input_lower = strip (lower user_input)
      in py_any (\<lambda>phrase. py_in phrase user_input_lower) goodbye_phrases)"

subsection \<open>Name extraction\<close>

definition name_patterns :: "pystr list" where
  "name_patterns =
     [lit ''my name is'', lit ''i'm'', lit ''i am'', lit ''call me'', lit ''name's'', lit ''i go by'']"

text \<open>The \<^verbatim>\<open>for pattern in name_patterns\<close> loop of \<^verbatim>\<open>detect_name_in_message\<close>, over the
  patterns still to try. \<open>Inr (Some n)\<close> is the \<^verbatim>\<open>return\<close> inside the loop, \<open>Inr None\<close>
  is the loop running to its end, and \<^verbatim>\<open>name_part.split()[0]\<close> raises \<^verbatim>\<open>IndexError\<close>
  on an empty list.\<close>

fun name_loop :: "pystr list \<Rightarrow> pystr \<Rightarrow> pystr \<Rightarrow> py_error + pystr option" where
  "name_loop [] user_input user_lower = Inr None"
| "name_loop (pattern # rest) user_input user_lower =
     (if py_in pattern user_lower then
        (let start_idx = find_str pattern user_lower + int (length pattern);
             name_part = strip (slice_from user_input start_idx)
         in if name_part \<noteq> [] then
              (case split name_part of
                 [] \<Rightarrow> Inl IndexError
               | w # _ \<Rightarrow>
                   (let potential_name = strip_chars (lit ''.,!?'') w
                    in if isalpha potential_name then Inr (Some (title potential_name))
                       else name_loop rest user_input user_lower))
            else name_loop rest user_input user_lower)
      else name_loop rest user_input user_lower)"

definition detect_name_in_message :: "pystr \<Rightarrow> py_error + pystr option" where
  "detect_name_in_message raw_input =
     (let user_input = strip raw_input;
          user_lower = lower user_input
      in case name_loop name_patterns user_input user_lower of
           Inl e \<Rightarrow> Inl e
         | Inr (Some name) \<Rightarrow> Inr (Some name)
         | Inr None \<Rightarrow>
             if length (split user_input) \<le> 2 \<and> isalpha (replace_spaces user_input)
             then Inr (Some (title user_input))
             else Inr None)"

subsection \<open>Reply variants\<close>

definition emoji_smile :: pystr where
  "emoji_smile = [0x1F60A]"

definition emoji_wave :: pystr where
  "emoji_wave = [0x1F44B]"

definition emoji_clock :: pystr where
  "emoji_clock = [0x23F0]"

text \<open>The f-string fragment \<^verbatim>\<open>{', ' + self.user_name if self.user_name else ''}\<close>.\<close>

definition name_slot :: "pystr option \<Rightarrow> pystr" where
  "name_slot u = (if truthy u then lit '', '' @ fmt u else [])"

definition name_responses :: "pystr option \<Rightarrow> pystr list" where
  "name_responses u =
     [lit ''Nice to meet you, '' @ fmt u @ lit ''! '' @ emoji_smile @ lit '' How can I help you today?'',
      lit ''Great to meet you, '' @ fmt u @ lit ''! I'm excited to chat with you!'',
      lit ''Hello '' @ fmt u @ lit ''! What a lovely name. What would you like to talk about?'',
      lit ''Wonderful, '' @ fmt u @ lit ''! Thanks for introducing yourself. How are you doing today?'']"

definition no_name_reply :: pystr where
  "no_name_reply =
     lit ''I didn't quite catch your name there. That's okay though! What would you like to chat about? You can always tell me your name later! ''
       @ emoji_smile"

definition goodbye_responses :: "pystr option \<Rightarrow> pystr list" where
  "goodbye_responses u =
     [lit ''Goodbye'' @ name_slot u @ lit ''! It was wonderful chatting with you! '' @ emoji_wave,
      lit ''See you later'' @ name_slot u @ lit ''! Have a fantastic day! '' @ emoji_smile,
      lit ''Bye'' @ name_slot u @ lit ''! Thanks for the great conversation!'',
      lit ''Take care'' @ name_slot u @ lit ''! Chat with me again anytime!'']"

text \<open>Building \<^verbatim>\<open>time_responses\<close> calls \<^verbatim>\<open>self.get_current_time()\<close> three times, and
  each call reads the clock: \<open>clock k\<close> is the value of the \<open>k\<close>-th reading.\<close>

type_synonym clock = "nat \<Rightarrow> datetime"

definition time_responses :: "pystr option \<Rightarrow> clock \<Rightarrow> pystr list" where
  "time_responses u clock =
     [get_current_time (clock 0),
      get_current_time (clock 1) @ lit '' '' @ emoji_clock,
      lit ''Sure thing'' @ name_slot u @ lit ''! '' @ get_current_time (clock 2)]"

definition greeting_responses :: "pystr option \<Rightarrow> pystr list" where
  "greeting_responses u =
     (if truthy u then
        [lit ''Hello again, '' @ fmt u @ lit ''! How can I help you? '' @ emoji_smile,
         lit ''Hi '' @ fmt u @ lit ''! Great to hear from you!'',
         lit ''Hey there, '' @ fmt u @ lit ''! What's on your mind?'',
         lit ''Hello '' @ fmt u @ lit ''! How are you doing today?'']
      else
        [lit ''Hello there! How can I help you today? '' @ emoji_smile,
         lit ''Hi! Great to meet you! What's on your mind?'',
         lit ''Hey! I'm here and ready to chat!'',
         lit ''Hello! How are you doing today?''])"

definition how_are_you_responses :: "pystr option \<Rightarrow> pystr list" where
  "how_are_you_responses u =
     [lit ''I'm doing great, thank you for asking'' @ name_slot u @ lit ''! How are you?'',
      lit ''I'm wonderful'' @ name_slot u @ lit ''! Thanks for checking in. How about you?'',
      lit ''I'm having a fantastic day'' @ name_slot u @ lit ''! How are things with you?'',
      lit ''I'm doing well'' @ name_slot u @ lit ''! Ready to help with whatever you need!'']"

definition default_responses :: "pystr option \<Rightarrow> pystr list" where
  "default_responses u =
     (if truthy u then
        [lit ''That's interesting, '' @ fmt u @ lit ''! Tell me more about that.'',
         lit ''I'm not sure I understand, '' @ fmt u @ lit '', but I'm here to listen!'',
         lit ''Hmm, '' @ fmt u @ lit '', I'd love to learn more about what you mean.'',
         lit ''I'm still learning, '' @ fmt u @ lit ''! Can you try asking in a different way?'',
         lit ''That's cool, '' @ fmt u @ lit ''! What else would you like to talk about?'',
         lit ''I'm here to chat, '' @ fmt u @ lit ''! Try asking me about the time, or just say hello!'']
      else
        [lit ''That's interesting! Tell me more about that.'',
         lit ''I'm not sure I understand, but I'm here to listen!'',
         lit ''Hmm, I'd love to learn more about what you mean.'',
         lit ''I'm still learning! Can you try asking in a different way?'',
         lit ''That's cool! What else would you like to talk about?'',
         lit ''I'm here to chat! Try asking me about the time, or just say hello!''])"

subsection \<open>The response engine\<close>

text \<open>\<^verbatim>\<open>return random.choice(xs)\<close>: the reply together with the object as it then is.\<close>

definition return_choice :: "pypal \<Rightarrow> pystr list \<Rightarrow> nat \<Rightarrow> py_error + (pystr \<times> pypal)" where
  "return_choice self xs r = (case choice xs r of Inl e \<Rightarrow> Inl e | Inr reply \<Rightarrow> Inr (reply, self))"

text \<open>\<^verbatim>\<open>generate_response\<close>: from the object, the clock, the random draw \<open>r\<close> and the
  user's text, to an exception or the reply and the updated object.\<close>

definition generate_response ::
    "pypal \<Rightarrow> clock \<Rightarrow> nat \<Rightarrow> pystr \<Rightarrow> py_error + (pystr \<times> pypal)" where
  "generate_response self clock r user_input =
     (if \<not> truthy (user_name self) \<and> \<not> conversation_started self then
        (case detect_name_in_message user_input of
           Inl e \<Rightarrow> Inl e
         | Inr potential_name \<Rightarrow>
             if truthy potential_name then
               (let self' = self\<lparr>user_name := potential_name, conversation_started := True\<rparr>
                in return_choice self' (name_responses (user_name self')) r)
             else Inr (no_name_reply, self\<lparr>conversation_started := True\<rparr>))
      else if detect_goodbye user_input then
        return_choice self (goodbye_responses (user_name self)) r
      else if detect_time_request user_input then
        return_choice self (time_responses (user_name self) clock) r
      else if detect_greeting user_input then
        return_choice self (greeting_responses (user_name self)) r
      else if detect_how_are_you user_input then
        return_choice self (how_are_you_responses (user_name self)) r
      else return_choice self (default_responses (user_name self)) r)"

text \<open>One turn of a session is a clock, a random draw and the user's text; a session
  is a list of turns, run from left to right and stopped by the first exception.\<close>

type_synonym turn = "clock \<times> nat \<times> pystr"

fun run_session :: "pypal \<Rightarrow> turn list \<Rightarrow> py_error + pypal" where
  "run_session self [] = Inr self"
| "run_session self ((clock, r, user_input) # turns) =
     (case generate_response self clock r user_input of
        Inl e \<Rightarrow> Inl e
      | Inr (reply, self') \<Rightarrow> run_session self' turns)"

subsection \<open>Logging\<close>

text \<open>The log file is its text; \<open>console\<close> is what \<^verbatim>\<open>print\<close> has written. What
  \<^verbatim>\<open>open\<close> and \<^verbatim>\<open>write\<close> do is the environment's choice: they complete, or one of them
  raises an exception \<open>e\<close> after \<open>k\<close> characters of the entry have reached the file
  (\<open>k = 0\<close> when \<^verbatim>\<open>open\<close> itself fails).\<close>

record world =
  log_file :: pystr
  console :: pystr

datatype io_outcome = Completes | Raises pystr nat

definition newline :: codepoint where
  "newline = 10"

text \<open>\<^verbatim>\<open>strftime("%Y-%m-%d %H:%M:%S")\<close>\<close>

definition log_timestamp :: "datetime \<Rightarrow> pystr" where
  "log_timestamp now =
     dec4 (year now) @ lit ''-'' @ dec2 (month now) @ lit ''-'' @ dec2 (day now) @ lit '' ''
       @ dec2 (hour now) @ lit '':'' @ dec2 (minute now) @ lit '':'' @ dec2 (second now)"

definition log_entry :: "datetime \<Rightarrow> pystr \<Rightarrow> pystr \<Rightarrow> pystr" where
  "log_entry now sender message =
     lit ''['' @ log_timestamp now @ lit ''] '' @ sender @ lit '': '' @ message @ [newline]"

text \<open>The body of the \<^verbatim>\<open>try\<close>: open the file for appending and write the entry.\<close>

definition write_entry :: "io_outcome \<Rightarrow> pystr \<Rightarrow> world \<Rightarrow> (py_error \<times> world) + world" where
  "write_entry io entry w =
     (case io of
        Completes \<Rightarrow> Inr (w\<lparr>log_file := log_file w @ entry\<rparr>)
      | Raises e k \<Rightarrow> Inl (OSError e, w\<lparr>log_file := log_file w @ take k entry\<rparr>))"

text \<open>\<^verbatim>\<open>log_message\<close>: the handler \<^verbatim>\<open>except Exception as e\<close> prints the error and the
  method returns normally.\<close>

fun str_error :: "py_error \<Rightarrow> pystr" where
  "str_error IndexError = lit ''list index out of range''"
| "str_error (OSError e) = e"

definition log_message ::
    "pypal \<Rightarrow> datetime \<Rightarrow> io_outcome \<Rightarrow> pystr \<Rightarrow> pystr \<Rightarrow> world \<Rightarrow> py_error + (pypal \<times> world)" where
  "log_message self now io sender message w =
     (let entry = log_entry now sender message
      in case write_entry io entry w of
           Inr w' \<Rightarrow> Inr (self, w')
         | Inl (e, w') \<Rightarrow>
             Inr (self, w'\<lparr>console := console w' @ lit ''Error logging message: '' @ str_error e @ [newline]\<rparr>))"

subsection \<open>The specification's ordered intent evaluation\<close>

text \<open>The specification describes the turns after the first through intents: each intent
  has a phrase set and a set of reply variants, a detector matches when a phrase of its
  set is contained in the lower-cased input, the fallback always matches, and the
  detectors are tried in a fixed order. These definitions follow that description; the
  phrase sets and variants are the literals of the source.\<close>

datatype intent = Farewell | TimeQuery | Greeting | HowAreYou | Fallback

fun phrase_set :: "intent \<Rightarrow> pystr list" where
  "phrase_set Farewell = goodbye_phrases"
| "phrase_set TimeQuery = time_keywords"
| "phrase_set Greeting = greetings"
| "phrase_set HowAreYou = how_are_you_phrases"
| "phrase_set Fallback = []"

definition intent_matches :: "pystr \<Rightarrow> intent \<Rightarrow> bool" where
  "intent_matches text i = (i = Fallback \<or> list_ex (\<lambda>p. sublist p (lower text)) (phrase_set i))"

definition evaluation_order :: "intent list" where
  "evaluation_order = [Farewell, TimeQuery, Greeting, HowAreYou, Fallback]"

definition first_matching_intent :: "pystr \<Rightarrow> intent option" where
  "first_matching_intent text = List.find (intent_matches text) evaluation_order"

fun variants :: "intent \<Rightarrow> pystr option \<Rightarrow> clock \<Rightarrow> pystr list" where
  "variants Farewell u clock = goodbye_responses u"
| "variants TimeQuery u clock = time_responses u clock"
| "variants Greeting u clock = greeting_responses u"
| "variants HowAreYou u clock = how_are_you_responses u"
| "variants Fallback u clock = default_responses u"

subsection \<open>Names as the specification describes them\<close>

text \<open>A token is in title case when its first letter is upper case and the others are
  lower case. A valid name is non-empty, has at most two white-space-delimited tokens,
  consists of letters and blanks only, and each of its tokens is in title case.\<close>

definition title_cased :: "pystr \<Rightarrow> bool" where
  "title_cased tok = (case tok of [] \<Rightarrow> False | c # cs \<Rightarrow> isupper_chr c \<and> list_all islower_chr cs)"

definition valid_name :: "pystr \<Rightarrow> bool" where
  "valid_name n =
     (n \<noteq> [] \<and> length (split n) \<le> 2 \<and> list_all (\<lambda>c. isalpha_chr c \<or> c = 32) n
      \<and> list_all title_cased (split n))"

definition name_inv :: "pypal \<Rightarrow> bool" where
  "name_inv self = (case user_name self of None \<Rightarrow> True | Some n \<Rightarrow> valid_name n)"

text \<open>A session all of whose inputs are ASCII.\<close>

fun ascii_turns :: "turn list \<Rightarrow> bool" where
  "ascii_turns [] = True"
| "ascii_turns ((clock, r, user_input) # turns) = (isascii user_input \<and> ascii_turns turns)"

text \<open>On ASCII: the case mappings, the letters, \<^verbatim>\<open>title\<close> as it then works, and what
  it does to one token of letters.\<close>

definition lower_chr :: "codepoint \<Rightarrow> codepoint" where
  "lower_chr c = (if 65 \<le> c \<and> c \<le> 90 then c + 32 else c)"

definition upper_chr :: "codepoint \<Rightarrow> codepoint" where
  "upper_chr c = (if 97 \<le> c \<and> c \<le> 122 then c - 32 else c)"

definition ascii_letter :: "codepoint \<Rightarrow> bool" where
  "ascii_letter c = ((65 \<le> c \<and> c \<le> 90) \<or> (97 \<le> c \<and> c \<le> 122))"

fun ascii_title_from :: "bool \<Rightarrow> pystr \<Rightarrow> pystr" where
  "ascii_title_from prev [] = []"
| "ascii_title_from prev (c # cs) =
     (if ascii_letter c then (if prev then lower_chr c else upper_chr c) # ascii_title_from True cs
      else c # ascii_title_from False cs)"

definition title_word :: "pystr \<Rightarrow> pystr" where
  "title_word w = (case w of [] \<Rightarrow> [] | c # cs \<Rightarrow> upper_chr c # map lower_chr cs)"

subsection \<open>Lead-in phrases\<close>

text \<open>The input contains a lead-in phrase when one of \<open>name_patterns\<close> occurs in its
  lower-cased form; the first lead-in phrase is the first of the list that does.\<close>

definition contains_lead_in :: "pystr \<Rightarrow> bool" where
  "contains_lead_in msg = list_ex (\<lambda>p. sublist p (lower msg)) name_patterns"

definition first_lead_in :: "pystr \<Rightarrow> pystr option" where
  "first_lead_in msg = List.find (\<lambda>p. sublist p (lower msg)) name_patterns"

text \<open>The text of \<open>s\<close> that follows the first occurrence of the phrase \<open>p\<close> in the
  lower-cased \<open>s\<close>, and the first white-space-delimited token of a text (empty when
  there is none).\<close>

fun text_after :: "pystr \<Rightarrow> pystr \<Rightarrow> pystr" where
  "text_after p [] = []"
| "text_after p (c # cs) =
     (if prefix p (lower (c # cs)) then drop (length p) (c # cs) else text_after p cs)"

definition first_token :: "pystr \<Rightarrow> pystr" where
  "first_token s = (case split s of [] \<Rightarrow> [] | w # _ \<Rightarrow> w)"

text \<open>The rule as the specification words it: the first lead-in phrase alone decides. Its
  candidate is the first token of the trimmed text after the phrase with trailing
  \<^verbatim>\<open>.,!?\<close> removed; the name is the title-cased candidate if there is a candidate and
  every character of it is alphabetic, and there is no name otherwise.\<close>

definition strip_trailing :: "pystr \<Rightarrow> pystr \<Rightarrow> pystr" where
  "strip_trailing chars s = rev (dropWhile (\<lambda>c. c \<in> set chars) (rev s))"

definition spec_candidate :: "pystr \<Rightarrow> pystr \<Rightarrow> pystr" where
  "spec_candidate p msg = strip_trailing (lit ''.,!?'') (first_token (strip (text_after p msg)))"

definition spec_lead_in_name :: "pystr \<Rightarrow> pystr option" where
  "spec_lead_in_name msg =
     (case first_lead_in msg of
        None \<Rightarrow> None
      | Some p \<Rightarrow>
          (let c = spec_candidate p msg
           in if isalpha c then Some (title c) else None))"

text \<open>The rule of the source, on the trimmed input: the candidate of a phrase has
  \<^verbatim>\<open>.,!?\<close> removed at both ends, and a phrase is accepted when it occurs in the
  lower-cased input and its candidate is non-empty and alphabetic.\<close>

definition candidate :: "pystr \<Rightarrow> pystr \<Rightarrow> pystr" where
  "candidate user_input p = strip_chars (lit ''.,!?'') (first_token (strip (text_after p user_input)))"

definition accepted :: "pystr \<Rightarrow> pystr \<Rightarrow> bool" where
  "accepted user_input p = (sublist p (lower user_input) \<and> isalpha (candidate user_input p))"

subsection \<open>The time pattern and the lines of a text\<close>

text \<open>The regular expression
  \<^verbatim>\<open>It's currently \d{2}:\d{2} (AM|PM) on \w+ \d{1,2}, \d{4}\<close>, read on ASCII: the string
  splits into the literal parts and fields of the stated lengths and character classes.\<close>

definition isdigit_chr :: "codepoint \<Rightarrow> bool" where
  "isdigit_chr c = (48 \<le> c \<and> c \<le> 57)"

definition isword_chr :: "codepoint \<Rightarrow> bool" where
  "isword_chr c = (isalpha_chr c \<or> isdigit_chr c \<or> c = 95)"

definition time_pattern :: "pystr \<Rightarrow> bool" where
  "time_pattern s =
     (\<exists>hh mm ap mon dd yyyy.
        s = lit ''It's currently '' @ hh @ lit '':'' @ mm @ lit '' '' @ ap @ lit '' on '' @ mon @ lit '' '' @ dd
              @ lit '', '' @ yyyy
        \<and> length hh = 2 \<and> list_all isdigit_chr hh
        \<and> length mm = 2 \<and> list_all isdigit_chr mm
        \<and> (ap = lit ''AM'' \<or> ap = lit ''PM'')
        \<and> mon \<noteq> [] \<and> list_all isword_chr mon
        \<and> (length dd = 1 \<or> length dd = 2) \<and> list_all isdigit_chr dd
        \<and> length yyyy = 4 \<and> list_all isdigit_chr yyyy)"

text \<open>The number that a string of decimal digits denotes, and the reading of a time
  string: the string has the form of the pattern, and its fields denote the hour on the
  12-hour clock, the minute, the half of the day, the month by its English name, the
  day and the year of the clock value \<open>now\<close>.\<close>

definition dec_value :: "pystr \<Rightarrow> nat" where
  "dec_value s = foldl (\<lambda>a c. 10 * a + nat (c - 48)) 0 s"

definition shows_time :: "pystr \<Rightarrow> datetime \<Rightarrow> bool" where
  "shows_time s now =
     (\<exists>hh mm ap mon dd yyyy.
        s = lit ''It's currently '' @ hh @ lit '':'' @ mm @ lit '' '' @ ap @ lit '' on '' @ mon @ lit '' '' @ dd
              @ lit '', '' @ yyyy
        \<and> length hh = 2 \<and> list_all isdigit_chr hh
        \<and> dec_value hh = (if hour now mod 12 = 0 then 12 else hour now mod 12)
        \<and> length mm = 2 \<and> list_all isdigit_chr mm \<and> dec_value mm = minute now
        \<and> ap = (if hour now < 12 then lit ''AM'' else lit ''PM'')
        \<and> mon = month_names ! (month now - 1)
        \<and> length dd = 2 \<and> list_all isdigit_chr dd \<and> dec_value dd = day now
        \<and> length yyyy = 4 \<and> list_all isdigit_chr yyyy \<and> dec_value yyyy = year now)"

text \<open>The number of lines of a text whose lines each end in a newline character.\<close>

definition line_count :: "pystr \<Rightarrow> nat" where
  "line_count s = length (filter (\<lambda>c. c = newline) s)"

subsection \<open>The session states\<close>

text \<open>The specification's state \<open>AwaitingName\<close> is \<open>init_pypal\<close>; in \<open>Conversing\<close>
  the flag \<^verbatim>\<open>conversation_started\<close> is set. This is \<open>Conversing\<close> without a name.\<close>

definition awaiting_intents :: pypal where
  "awaiting_intents = \<lparr>user_name = None, conversation_started = True\<rparr>"

subsection \<open>A clock and a world for the examples\<close>

definition sample_time :: datetime where
  "sample_time = \<lparr>year = 2026, month = 11, day = 4, hour = 9, minute = 30, second = 0\<rparr>"

definition sample_clock :: clock where
  "sample_clock k = sample_time"

definition empty_world :: world where
  "empty_world = \<lparr>log_file = [], console = []\<rparr>"

section \<open>Properties\<close>

subsection \<open>No exception in name extraction and reply selection\<close>

lemma lit_eq_Nil [simp]: "lit s = [] \<longleftrightarrow> s = []" "[] = lit s \<longleftrightarrow> s = []"
  by (auto simp: lit_def)

lemma emoji_not_Nil [simp]: "emoji_smile \<noteq> []" "emoji_wave \<noteq> []" "emoji_clock \<noteq> []"
  by (simp_all add: emoji_smile_def emoji_wave_def emoji_clock_def)

lemma split_eq_Nil_iff: "split s = [] \<longleftrightarrow> list_all isspace_chr s"
  by (induction s rule: split.induct) auto

lemma strip_not_all_space: "strip s \<noteq> [] \<Longrightarrow> \<not> list_all isspace_chr (strip s)"
proof -
  assume ne: "strip s \<noteq> []"
  define t where "t = dropWhile isspace_chr (rev (dropWhile isspace_chr s))"
  have "t \<noteq> []" using ne by (simp add: strip_def t_def)
  then have "\<not> isspace_chr (hd t)" unfolding t_def by (rule hd_dropWhile)
  moreover have "hd t \<in> set (strip s)" using \<open>t \<noteq> []\<close> by (simp add: strip_def t_def)
  ultimately show ?thesis by (auto simp: list_all_iff)
qed

lemma split_strip_not_Nil: "strip s \<noteq> [] \<Longrightarrow> split (strip s) \<noteq> []"
  by (simp add: split_eq_Nil_iff strip_not_all_space)

lemma name_loop_returns: "\<exists>res. name_loop ps user_input user_lower = Inr res"
  by (induction ps) (auto simp: Let_def split_strip_not_Nil split: list.splits)

lemma detect_name_returns: "\<exists>res. detect_name_in_message s = Inr res"
proof -
  obtain res where "name_loop name_patterns (strip s) (lower (strip s)) = Inr res"
    using name_loop_returns by blast
  then show ?thesis by (cases res) (simp_all add: detect_name_in_message_def Let_def)
qed

lemma choice_member: "xs \<noteq> [] \<Longrightarrow> \<exists>x. choice xs r = Inr x \<and> x \<in> set xs"
  by (simp add: choice_def)

lemma return_choice_member:
  "xs \<noteq> [] \<Longrightarrow> \<exists>reply. return_choice self xs r = Inr (reply, self) \<and> reply \<in> set xs"
  using choice_member [of xs r] by (auto simp: return_choice_def)

lemma name_responses_nonempty: "name_responses u \<noteq> []" "[] \<notin> set (name_responses u)"
  by (simp_all add: name_responses_def)
lemma goodbye_responses_nonempty: "goodbye_responses u \<noteq> []" "[] \<notin> set (goodbye_responses u)"
  by (simp_all add: goodbye_responses_def)
lemma time_responses_nonempty: "time_responses u clock \<noteq> []" "[] \<notin> set (time_responses u clock)"
  by (simp_all add: time_responses_def get_current_time_def)
lemma greeting_responses_nonempty: "greeting_responses u \<noteq> []" "[] \<notin> set (greeting_responses u)"
  by (simp_all add: greeting_responses_def)
lemma how_are_you_responses_nonempty: "how_are_you_responses u \<noteq> []" "[] \<notin> set (how_are_you_responses u)"
  by (simp_all add: how_are_you_responses_def)
lemma default_responses_nonempty: "default_responses u \<noteq> []" "[] \<notin> set (default_responses u)"
  by (simp_all add: default_responses_def)

lemma return_choice_reply:
  assumes "xs \<noteq> []" and "[] \<notin> set xs"
  shows "\<exists>reply. return_choice self xs r = Inr (reply, self) \<and> reply \<noteq> []"
  using return_choice_member [OF assms(1), of self r] assms(2) by auto

subsection \<open>Characters, tokens and title case on ASCII\<close>

lemma isupper_upper_chr: "ascii_letter c \<Longrightarrow> isupper_chr (upper_chr c)"
  by (auto simp: ascii_letter_def isupper_chr_def upper_chr_def)

lemma islower_lower_chr: "ascii_letter c \<Longrightarrow> islower_chr (lower_chr c)"
  by (auto simp: ascii_letter_def islower_chr_def lower_chr_def)

lemma letter_not_isspace: "ascii_letter c \<Longrightarrow> \<not> isspace_chr c"
  by (auto simp: ascii_letter_def isspace_chr_def)

lemma isspace_blank: "isspace_chr 32"
  by (simp add: isspace_chr_def)

lemma letter_upper_chr: "ascii_letter c \<Longrightarrow> ascii_letter (upper_chr c)"
  by (auto simp: ascii_letter_def upper_chr_def)

lemma letter_lower_chr: "ascii_letter c \<Longrightarrow> ascii_letter (lower_chr c)"
  by (auto simp: ascii_letter_def lower_chr_def)

lemma letter_isalpha: "ascii_letter c \<Longrightarrow> isalpha_chr c"
  by (auto simp: ascii_letter_def isalpha_chr_def iscased_chr_def isupper_chr_def islower_chr_def)

lemma ascii_isalpha: "c < 128 \<Longrightarrow> isalpha_chr c \<longleftrightarrow> ascii_letter c"
  by (auto simp: ascii_letter_def isalpha_chr_def iscased_chr_def isupper_chr_def islower_chr_def)

lemma ascii_iscased: "c < 128 \<Longrightarrow> iscased_chr c \<longleftrightarrow> ascii_letter c"
  by (auto simp: ascii_letter_def iscased_chr_def isupper_chr_def islower_chr_def)

lemma ascii_lower_full: "c < 128 \<Longrightarrow> lower_full c = [lower_chr c]"
  by (auto simp: lower_full_def lower_chr_def)

lemma ascii_title_full: "c < 128 \<Longrightarrow> title_full c = [upper_chr c]"
  by (auto simp: title_full_def upper_chr_def)

lemma not_letter_unchanged: "\<not> ascii_letter c \<Longrightarrow> lower_chr c = c \<and> upper_chr c = c"
  by (auto simp: ascii_letter_def lower_chr_def upper_chr_def)

lemma title_from_ascii: "isascii s \<Longrightarrow> title_from b s = ascii_title_from b s"
  by (induction s arbitrary: b)
    (auto simp: isascii_def ascii_iscased ascii_lower_full ascii_title_full not_letter_unchanged)

lemma lower_ascii: "isascii s \<Longrightarrow> lower s = map lower_chr s"
  by (induction s) (auto simp: isascii_def lower_def ascii_lower_full)

lemma title_from_alpha_run:
  "list_all ascii_letter w \<Longrightarrow> ascii_title_from True (w @ rest) = map lower_chr w @ ascii_title_from True rest"
  by (induction w) simp_all

lemma title_from_prev_irrelevant:
  "rest = [] \<or> \<not> ascii_letter (hd rest) \<Longrightarrow> ascii_title_from True rest = ascii_title_from False rest"
  by (cases rest) auto

lemma split_first_token:
  assumes "u \<noteq> []" and "list_all (\<lambda>d. \<not> isspace_chr d) u" and "v = [] \<or> isspace_chr (hd v)"
  shows "split (u @ v) = u # split v"
proof -
  obtain c cs where u: "u = c # cs" using assms(1) by (cases u) auto
  have tw: "takeWhile (\<lambda>d. \<not> isspace_chr d) (cs @ v) = cs"
    using assms(2,3) u by (cases v) (auto simp: list_all_iff takeWhile_append)
  have dw: "dropWhile (\<lambda>d. \<not> isspace_chr d) (cs @ v) = v"
    using assms(2,3) u by (cases v) (auto simp: list_all_iff dropWhile_append)
  show ?thesis using assms(2) u tw dw by simp
qed

lemma dropWhile_nonspace_head:
  "dropWhile (\<lambda>d. \<not> isspace_chr d) cs = [] \<or> isspace_chr (hd (dropWhile (\<lambda>d. \<not> isspace_chr d) cs))"
  using hd_dropWhile [of "\<lambda>d. \<not> isspace_chr d" cs] by auto

lemma title_from_length: "length (ascii_title_from b s) = length s"
  by (induction s arbitrary: b) simp_all

lemma title_from_isspace: "map isspace_chr (ascii_title_from b s) = map isspace_chr s"
  by (induction s arbitrary: b)
    (auto simp: letter_not_isspace letter_upper_chr letter_lower_chr)

lemma split_title:
  "list_all (\<lambda>c. ascii_letter c \<or> isspace_chr c) s \<Longrightarrow>
     split (ascii_title_from False s) = map title_word (split s)"
proof (induction s rule: split.induct)
  case 1
  show ?case by simp
next
  case (2 c cs)
  let ?w = "takeWhile (\<lambda>d. \<not> isspace_chr d) cs"
  let ?rest = "dropWhile (\<lambda>d. \<not> isspace_chr d) cs"
  show ?case
  proof (cases "isspace_chr c")
    case True
    then have "\<not> ascii_letter c" using letter_not_isspace by blast
    with True 2 show ?thesis by simp
  next
    case False
    with 2(3) have c: "ascii_letter c" by simp
    have all: "list_all (\<lambda>c. ascii_letter c \<or> isspace_chr c) cs" using 2(3) by simp
    have w_alpha: "list_all ascii_letter ?w"
      using all by (auto simp: list_all_iff dest: set_takeWhileD)
    have rest_all: "list_all (\<lambda>c. ascii_letter c \<or> isspace_chr c) ?rest"
      using all by (auto simp: list_all_iff dest: set_dropWhileD)
    have rest_hd: "?rest = [] \<or> isspace_chr (hd ?rest)" by (rule dropWhile_nonspace_head)
    then have rest_hd': "?rest = [] \<or> \<not> ascii_letter (hd ?rest)"
      using letter_not_isspace by blast
    have "ascii_title_from True cs = ascii_title_from True (?w @ ?rest)" by simp
    also have "\<dots> = map lower_chr ?w @ ascii_title_from True ?rest"
      by (rule title_from_alpha_run [OF w_alpha])
    also have "\<dots> = map lower_chr ?w @ ascii_title_from False ?rest"
      using title_from_prev_irrelevant [OF rest_hd'] by simp
    finally have t: "ascii_title_from False (c # cs)
        = (upper_chr c # map lower_chr ?w) @ ascii_title_from False ?rest"
      using c by simp
    have tok: "list_all (\<lambda>d. \<not> isspace_chr d) (upper_chr c # map lower_chr ?w)"
      using c w_alpha
      by (auto simp: list_all_iff letter_not_isspace letter_upper_chr letter_lower_chr)
    have v: "ascii_title_from False ?rest = [] \<or> isspace_chr (hd (ascii_title_from False ?rest))"
    proof (cases "?rest = []")
      case True
      then show ?thesis using title_from_length [of False ?rest] by (metis length_0_conv)
    next
      case ne: False
      then have ne': "ascii_title_from False ?rest \<noteq> []"
        using title_from_length [of False ?rest] by auto
      have "isspace_chr (hd (ascii_title_from False ?rest)) = hd (map isspace_chr (ascii_title_from False ?rest))"
        using ne' by (simp add: hd_map)
      also have "\<dots> = hd (map isspace_chr ?rest)" by (simp only: title_from_isspace)
      also have "\<dots> = isspace_chr (hd ?rest)" using ne by (simp add: hd_map)
      finally show ?thesis using rest_hd ne by blast
    qed
    have "split (ascii_title_from False (c # cs))
        = (upper_chr c # map lower_chr ?w) # split (ascii_title_from False ?rest)"
      unfolding t by (rule split_first_token [OF _ tok v]) simp
    also have "split (ascii_title_from False ?rest) = map title_word (split ?rest)"
      using 2(2) [OF False rest_all] .
    finally show ?thesis using False by (simp add: title_word_def)
  qed
qed

lemma split_tokens:
  "w \<in> set (split s) \<Longrightarrow> w \<noteq> [] \<and> set w \<subseteq> set s \<and> list_all (\<lambda>d. \<not> isspace_chr d) w"
proof (induction s rule: split.induct)
  case 1
  then show ?case by simp
next
  case (2 c cs)
  show ?case
  proof (cases "isspace_chr c")
    case True
    with 2 show ?thesis by auto
  next
    case False
    with 2(3) consider "w = c # takeWhile (\<lambda>d. \<not> isspace_chr d) cs"
      | "w \<in> set (split (dropWhile (\<lambda>d. \<not> isspace_chr d) cs))" by auto
    then show ?thesis
    proof cases
      case 1
      with False show ?thesis
        by (auto simp: list_all_iff dest: set_takeWhileD)
    next
      case 2
      from "2.IH"(2) [OF False this] show ?thesis
        by (auto dest: set_dropWhileD)
    qed
  qed
qed

lemma title_cased_title_word:
  "w \<noteq> [] \<Longrightarrow> list_all ascii_letter w \<Longrightarrow> title_cased (title_word w)"
  by (cases w) (auto simp: title_cased_def title_word_def list_all_iff isupper_upper_chr islower_lower_chr)

lemma title_from_alpha_or_blank:
  "list_all (\<lambda>c. ascii_letter c \<or> c = 32) s \<Longrightarrow>
     list_all (\<lambda>c. isalpha_chr c \<or> c = 32) (ascii_title_from b s)"
  by (induction s arbitrary: b) (auto simp: letter_upper_chr letter_lower_chr letter_isalpha)

lemma valid_name_title:
  assumes "isascii s" and "s \<noteq> []" and "length (split s) \<le> 2"
    and "list_all (\<lambda>c. isalpha_chr c \<or> c = 32) s"
  shows "valid_name (title s)"
proof -
  have al: "list_all (\<lambda>c. ascii_letter c \<or> c = 32) s"
    using assms(1,4) ascii_isalpha by (auto simp: list_all_iff isascii_def)
  have sp: "list_all (\<lambda>c. ascii_letter c \<or> isspace_chr c) s"
    using al isspace_blank by (auto simp: list_all_iff)
  have t: "title s = ascii_title_from False s"
    unfolding title_def by (rule title_from_ascii [OF assms(1)])
  have st: "split (title s) = map title_word (split s)"
    unfolding t by (rule split_title [OF sp])
  have "title_cased (title_word w)" if "w \<in> set (split s)" for w
  proof -
    from split_tokens [OF that] have "w \<noteq> []" "set w \<subseteq> set s" "list_all (\<lambda>d. \<not> isspace_chr d) w"
      by auto
    then have "list_all ascii_letter w"
      using al isspace_blank by (auto simp: list_all_iff)
    with \<open>w \<noteq> []\<close> show ?thesis by (rule title_cased_title_word)
  qed
  then have "list_all title_cased (split (title s))"
    by (simp add: st list_all_iff)
  moreover have "title s \<noteq> []"
    using assms(2) title_from_length [of False s] by (auto simp: t)
  moreover have "length (split (title s)) \<le> 2" using assms(3) by (simp add: st)
  moreover have "list_all (\<lambda>c. isalpha_chr c \<or> c = 32) (title s)"
    unfolding t by (rule title_from_alpha_or_blank [OF al])
  ultimately show ?thesis by (simp add: valid_name_def)
qed

subsection \<open>The detectors against the specification's intents\<close>

lemma py_in_sublist: "py_in p s \<longleftrightarrow> sublist p s"
  by (induction s) (simp_all add: sublist_Cons_right)

lemma py_any_list_ex: "py_any f xs \<longleftrightarrow> list_ex f xs"
  by (induction xs) simp_all

lemma sublist_dropWhile_iff:
  assumes "p \<noteq> []" and "\<not> P (hd p)"
  shows "sublist p (dropWhile P s) \<longleftrightarrow> sublist p s"
proof (induction s)
  case Nil
  show ?case by simp
next
  case (Cons c cs)
  show ?case
  proof (cases "P c")
    case True
    have "\<not> prefix p (c # cs)"
      using assms True by (cases p) auto
    with True Cons show ?thesis by (simp add: sublist_Cons_right)
  next
    case False
    then show ?thesis by simp
  qed
qed

lemma sublist_strip:
  assumes "p \<noteq> []" and "\<not> isspace_chr (hd p)" and "\<not> isspace_chr (last p)"
  shows "sublist p (strip s) \<longleftrightarrow> sublist p s"
proof -
  let ?t = "dropWhile isspace_chr s"
  have r: "rev p \<noteq> []" "\<not> isspace_chr (hd (rev p))"
    using assms by (simp_all add: hd_rev)
  have "sublist p (strip s) \<longleftrightarrow> sublist (rev p) (dropWhile isspace_chr (rev ?t))"
    unfolding strip_def by (metis sublist_rev rev_rev_ident)
  also have "\<dots> \<longleftrightarrow> sublist (rev p) (rev ?t)"
    using sublist_dropWhile_iff [of "rev p" isspace_chr "rev ?t"] r by blast
  also have "\<dots> \<longleftrightarrow> sublist p ?t"
    by (rule sublist_rev)
  also have "\<dots> \<longleftrightarrow> sublist p s"
    using sublist_dropWhile_iff [of p isspace_chr s] assms(1,2) by blast
  finally show ?thesis .
qed

lemma goodbye_phrases_edges:
  "list_all (\<lambda>p. p \<noteq> [] \<and> \<not> isspace_chr (hd p) \<and> \<not> isspace_chr (last p)) goodbye_phrases"
  by code_simp

lemma detect_goodbye_matches: "detect_goodbye text \<longleftrightarrow> intent_matches text Farewell"
proof -
  have "list_ex (\<lambda>p. sublist p (strip (lower text))) goodbye_phrases
        \<longleftrightarrow> list_ex (\<lambda>p. sublist p (lower text)) goodbye_phrases"
    using goodbye_phrases_edges sublist_strip
    unfolding list_ex_iff list_all_iff by blast
  then show ?thesis
    by (simp add: detect_goodbye_def intent_matches_def py_any_list_ex py_in_sublist)
qed

lemma detect_time_request_matches: "detect_time_request text \<longleftrightarrow> intent_matches text TimeQuery"
  by (simp add: detect_time_request_def intent_matches_def py_any_list_ex py_in_sublist)

lemma detect_greeting_matches: "detect_greeting text \<longleftrightarrow> intent_matches text Greeting"
  by (simp add: detect_greeting_def intent_matches_def py_any_list_ex py_in_sublist)

lemma detect_how_are_you_matches: "detect_how_are_you text \<longleftrightarrow> intent_matches text HowAreYou"
  by (simp add: detect_how_are_you_def intent_matches_def py_any_list_ex py_in_sublist)

lemma first_matching_intent_cases:
  "first_matching_intent text =
     Some (if detect_goodbye text then Farewell
           else if detect_time_request text then TimeQuery
           else if detect_greeting text then Greeting
           else if detect_how_are_you text then HowAreYou
           else Fallback)"
  by (simp add: first_matching_intent_def evaluation_order_def detect_goodbye_matches
      detect_time_request_matches detect_greeting_matches detect_how_are_you_matches)
    (simp add: intent_matches_def)

lemma generate_response_conversing:
  assumes "truthy (user_name self) \<or> conversation_started self"
  shows "generate_response self clock r user_input =
           return_choice self (variants (the (first_matching_intent user_input)) (user_name self) clock) r"
  using assms by (auto simp: generate_response_def first_matching_intent_cases)

lemma variants_nonempty: "variants i u clock \<noteq> []" "[] \<notin> set (variants i u clock)"
  by (cases i; simp add: goodbye_responses_nonempty time_responses_nonempty
      greeting_responses_nonempty how_are_you_responses_nonempty default_responses_nonempty)+

subsection \<open>Names, sessions and the turns after the first\<close>

lemma isascii_subset: "isascii s \<Longrightarrow> set t \<subseteq> set s \<Longrightarrow> isascii t"
  by (auto simp: isascii_def list_all_iff)

lemma set_strip: "set (strip s) \<subseteq> set s"
  by (auto simp: strip_def dest!: set_dropWhileD)

lemma set_strip_chars: "set (strip_chars chars s) \<subseteq> set s"
  by (auto simp: strip_chars_def dest!: set_dropWhileD)

lemma set_slice_from: "set (slice_from s i) \<subseteq> set s"
  by (auto simp: slice_from_def dest: in_set_dropD)

lemma split_single_token:
  "w \<noteq> [] \<Longrightarrow> list_all ascii_letter w \<Longrightarrow> split w = [w]"
  using split_first_token [of w "[]"] by (auto simp: list_all_iff letter_not_isspace)

lemma valid_name_title_alpha:
  assumes "isascii p" and "isalpha p"
  shows "valid_name (title p)"
proof -
  from assms(2) have ne: "p \<noteq> []" and al: "list_all isalpha_chr p" by (simp_all add: isalpha_def)
  have "list_all ascii_letter p"
    using assms(1) al ascii_isalpha by (auto simp: list_all_iff isascii_def)
  then have "length (split p) \<le> 2" by (simp add: split_single_token [OF ne])
  moreover have "list_all (\<lambda>c. isalpha_chr c \<or> c = 32) p"
    using al by (auto simp: list_all_iff)
  ultimately show ?thesis using assms(1) ne by (intro valid_name_title)
qed

lemma candidate_token_ascii:
  assumes "isascii user_input" and "split (strip (slice_from user_input i)) = w # ws"
  shows "isascii (strip_chars chars w)"
proof -
  have "w \<in> set (split (strip (slice_from user_input i)))" using assms(2) by simp
  from split_tokens [OF this] have "set w \<subseteq> set (strip (slice_from user_input i))" by simp
  then have "set (strip_chars chars w) \<subseteq> set user_input"
    using set_strip_chars [of chars w] set_strip [of "slice_from user_input i"]
      set_slice_from [of user_input i] by blast
  with assms(1) show ?thesis by (rule isascii_subset)
qed

lemma name_loop_valid:
  assumes "isascii user_input"
  shows "name_loop ps user_input user_lower = Inr (Some n) \<Longrightarrow> valid_name n"
proof (induction ps)
  case Nil
  then show ?case by simp
next
  case (Cons p ps)
  then show ?case
    using candidate_token_ascii [OF assms]
    by (auto simp: Let_def valid_name_title_alpha split: if_splits list.splits)
qed

lemma alpha_replace_spaces:
  assumes "isalpha (replace_spaces s)"
  shows "s \<noteq> []" and "list_all (\<lambda>c. isalpha_chr c \<or> c = 32) s"
  using assms by (auto simp: isalpha_def replace_spaces_def list_all_iff)

lemma detect_name_valid:
  assumes "isascii msg" and "detect_name_in_message msg = Inr (Some n)"
  shows "valid_name n"
proof (cases "name_loop name_patterns (strip msg) (lower (strip msg))")
  case (Inl e)
  with assms(2) show ?thesis by (simp add: detect_name_in_message_def)
next
  case (Inr res)
  have a: "isascii (strip msg)" using assms(1) set_strip by (rule isascii_subset)
  show ?thesis
  proof (cases res)
    case (Some m)
    with Inr assms(2) have "n = m" by (simp add: detect_name_in_message_def)
    with Inr Some show ?thesis using name_loop_valid [OF a] by blast
  next
    case None
    with Inr assms(2) have c: "length (split (strip msg)) \<le> 2" "isalpha (replace_spaces (strip msg))"
      and n: "n = title (strip msg)"
      by (auto simp: detect_name_in_message_def Let_def split: if_splits)
    show ?thesis unfolding n
      using a c(1) alpha_replace_spaces [OF c(2)] by (intro valid_name_title)
  qed
qed

lemma generate_response_conversing_state:
  assumes "truthy (user_name self) \<or> conversation_started self"
    and "generate_response self clock r user_input = Inr (reply, self')"
  shows "self' = self"
  using assms return_choice_member [OF variants_nonempty(1), of self _ _ _ r]
  by (auto simp: generate_response_conversing return_choice_def split: sum.splits)

lemma generate_response_first_turn:
  assumes "\<not> truthy (user_name self)" and "\<not> conversation_started self"
    and "generate_response self clock r user_input = Inr (reply, self')"
  shows "conversation_started self' \<and>
         (user_name self' = user_name self
          \<or> (\<exists>n. detect_name_in_message user_input = Inr (Some n) \<and> n \<noteq> [] \<and> user_name self' = Some n))"
proof -
  obtain res where res: "detect_name_in_message user_input = Inr res"
    using detect_name_returns by blast
  show ?thesis
  proof (cases "truthy res")
    case True
    then obtain n where "res = Some n" "n \<noteq> []" by (cases res) auto
    with assms res True show ?thesis
      by (auto simp: generate_response_def return_choice_def split: sum.splits)
  next
    case False
    with assms res show ?thesis by (auto simp: generate_response_def)
  qed
qed

lemma name_inv_step:
  assumes "name_inv self" and "isascii user_input"
    and "generate_response self clock r user_input = Inr (reply, self')"
  shows "name_inv self'"
proof (cases "truthy (user_name self) \<or> conversation_started self")
  case True
  with assms show ?thesis using generate_response_conversing_state by blast
next
  case False
  with generate_response_first_turn [of self clock r user_input reply self'] assms(3)
  consider "user_name self' = user_name self"
    | n where "detect_name_in_message user_input = Inr (Some n)" "user_name self' = Some n"
    by auto
  then show ?thesis
  proof cases
    case 1
    with assms(1) show ?thesis by (simp add: name_inv_def)
  next
    case 2
    then show ?thesis using detect_name_valid [OF assms(2)] by (simp add: name_inv_def)
  qed
qed

lemma name_inv_run:
  "name_inv self \<Longrightarrow> ascii_turns turns \<Longrightarrow> run_session self turns = Inr self' \<Longrightarrow> name_inv self'"
proof (induction turns arbitrary: self)
  case Nil
  then show ?case by simp
next
  case (Cons t turns)
  obtain clock r user_input where t: "t = (clock, r, user_input)" by (cases t) auto
  from Cons.prems(3) obtain reply s1 where
    step: "generate_response self clock r user_input = Inr (reply, s1)"
    and rest: "run_session s1 turns = Inr self'"
    by (auto simp: t split: sum.splits)
  from Cons.prems(2) have a: "isascii user_input" "ascii_turns turns" by (simp_all add: t)
  from name_inv_step [OF Cons.prems(1) a(1) step] a(2) rest show ?case by (rule Cons.IH)
qed

lemma run_session_append:
  "run_session self (xs @ ys) =
     (case run_session self xs of Inl e \<Rightarrow> Inl e | Inr s1 \<Rightarrow> run_session s1 ys)"
proof (induction xs arbitrary: self)
  case Nil
  show ?case by simp
next
  case (Cons t xs)
  obtain clock r user_input where t: "t = (clock, r, user_input)" by (cases t) auto
  show ?case by (auto simp: t Cons.IH split: sum.splits)
qed

lemma generate_response_conversing_member:
  assumes "truthy (user_name self) \<or> conversation_started self"
  shows "\<exists>i reply. first_matching_intent user_input = Some i
           \<and> generate_response self clock r user_input = Inr (reply, self)
           \<and> reply \<in> set (variants i (user_name self) clock)"
proof -
  obtain i where i: "first_matching_intent user_input = Some i"
    by (simp add: first_matching_intent_cases)
  obtain reply where "return_choice self (variants i (user_name self) clock) r = Inr (reply, self)"
      "reply \<in> set (variants i (user_name self) clock)"
    using return_choice_member [OF variants_nonempty(1)] by blast
  with i assms show ?thesis by (simp add: generate_response_conversing)
qed

lemma run_session_conversing:
  assumes "truthy (user_name self) \<or> conversation_started self"
  shows "run_session self turns = Inr self"
proof (induction turns)
  case Nil
  show ?case by simp
next
  case (Cons t turns)
  obtain clock r user_input where t: "t = (clock, r, user_input)" by (cases t) auto
  obtain reply where "generate_response self clock r user_input = Inr (reply, self)"
    using generate_response_conversing_member [OF assms] by blast
  with Cons show ?case by (simp add: t)
qed

lemma started_inv_step:
  assumes "user_name self \<noteq> None \<longrightarrow> conversation_started self"
    and "generate_response self clock r user_input = Inr (reply, self')"
  shows "user_name self' \<noteq> None \<longrightarrow> conversation_started self'"
proof (cases "truthy (user_name self) \<or> conversation_started self")
  case True
  with assms show ?thesis using generate_response_conversing_state by blast
next
  case False
  with generate_response_first_turn [of self clock r user_input reply self'] assms(2)
  show ?thesis by blast
qed

lemma started_inv_run:
  "user_name self \<noteq> None \<longrightarrow> conversation_started self \<Longrightarrow> run_session self turns = Inr self'
     \<Longrightarrow> user_name self' \<noteq> None \<longrightarrow> conversation_started self'"
proof (induction turns arbitrary: self)
  case Nil
  then show ?case by simp
next
  case (Cons t turns)
  obtain clock r user_input where t: "t = (clock, r, user_input)" by (cases t) auto
  from Cons.prems(2) obtain reply s1 where
    step: "generate_response self clock r user_input = Inr (reply, s1)"
    and rest: "run_session s1 turns = Inr self'"
    by (auto simp: t split: sum.splits)
  from started_inv_step [OF Cons.prems(1) step] rest show ?case by (rule Cons.IH)
qed

subsection \<open>The name loop as a search for the first accepted phrase\<close>

lemma find_str_nonneg: "py_in p s \<Longrightarrow> 0 \<le> find_str p s"
  by (induction s) (auto simp: Let_def)

lemma slice_after_find:
  "isascii s \<Longrightarrow> py_in p (lower s) \<Longrightarrow>
     slice_from s (find_str p (lower s) + int (length p)) = text_after p s"
proof (induction s)
  case Nil
  then show ?case by (simp add: lower_def slice_from_def)
next
  case (Cons c cs)
  from Cons.prems(1) have c: "c < 128" and cs: "isascii cs" by (simp_all add: isascii_def)
  have low: "lower (c # cs) = lower_chr c # lower cs"
    using c by (simp add: lower_def ascii_lower_full)
  show ?case
  proof (cases "prefix p (lower (c # cs))")
    case True
    then have "find_str p (lower (c # cs)) = 0" by (simp add: low)
    with True show ?thesis by (simp add: slice_from_def)
  next
    case False
    with Cons.prems(2) have in_cs: "py_in p (lower cs)" by (simp add: low)
    from find_str_nonneg [OF this] have nn: "0 \<le> find_str p (lower cs)" .
    have f: "find_str p (lower (c # cs)) = find_str p (lower cs) + 1"
      using False nn by (simp add: low Let_def)
    have "nat (find_str p (lower cs) + 1 + int (length p)) = Suc (nat (find_str p (lower cs) + int (length p)))"
      using nn by simp
    with nn have "slice_from (c # cs) (find_str p (lower (c # cs)) + int (length p))
        = slice_from cs (find_str p (lower cs) + int (length p))"
      by (simp add: f slice_from_def)
    with Cons.IH [OF cs in_cs] False show ?thesis by simp
  qed
qed

lemma name_loop_find:
  assumes "isascii user_input"
  shows "name_loop ps user_input (lower user_input)
     = Inr (map_option (\<lambda>p. title (candidate user_input p)) (List.find (accepted user_input) ps))"
proof (induction ps)
  case Nil
  show ?case by simp
next
  case (Cons p ps)
  show ?case
  proof (cases "py_in p (lower user_input)")
    case False
    then have "\<not> accepted user_input p" by (simp add: accepted_def py_in_sublist)
    with False Cons show ?thesis by simp
  next
    case True
    let ?part = "strip (text_after p user_input)"
    have part: "strip (slice_from user_input (find_str p (lower user_input) + int (length p))) = ?part"
      by (simp add: slice_after_find [OF assms True])
    show ?thesis
    proof (cases "?part = []")
      case e: True
      then have "candidate user_input p = []"
        by (simp add: candidate_def first_token_def strip_chars_def)
      then have "\<not> accepted user_input p" by (simp add: accepted_def isalpha_def)
      with True e part Cons show ?thesis by (simp add: Let_def)
    next
      case ne: False
      then obtain w ws where sp: "split ?part = w # ws"
        using split_strip_not_Nil [of "text_after p user_input"] by (cases "split ?part") auto
      then have cand: "candidate user_input p = strip_chars (lit ''.,!?'') w"
        by (simp add: candidate_def first_token_def)
      show ?thesis
        using True ne part sp cand Cons
        by (simp add: Let_def accepted_def py_in_sublist)
    qed
  qed
qed

lemma detect_name_characterisation:
  assumes "isascii msg"
  shows "detect_name_in_message msg =
     (let user_input = strip msg
      in case List.find (accepted user_input) name_patterns of
           Some p \<Rightarrow> Inr (Some (title (candidate user_input p)))
         | None \<Rightarrow>
             if length (split user_input) \<le> 2 \<and> isalpha (replace_spaces user_input)
             then Inr (Some (title user_input)) else Inr None)"
proof -
  have "isascii (strip msg)" using assms set_strip by (rule isascii_subset)
  then show ?thesis
    by (simp add: detect_name_in_message_def name_loop_find Let_def split: option.splits)
qed

lemma sublist_concat_map:
  assumes "sublist xs ys"
  shows "sublist (concat (map f xs)) (concat (map f ys))"
proof -
  from assms obtain ps ss where "ys = ps @ xs @ ss" by (auto simp: sublist_def)
  then have "concat (map f ys) = concat (map f ps) @ concat (map f xs) @ concat (map f ss)"
    by simp
  then show ?thesis unfolding sublist_def by blast
qed

lemma lower_strip_sublist: "sublist p (lower (strip s)) \<Longrightarrow> sublist p (lower s)"
proof -
  have "sublist (strip s) s"
    unfolding strip_def
    by (metis sublist_dropWhile sublist_order.order.trans sublist_rev_left)
  then have "sublist (lower (strip s)) (lower s)"
    unfolding lower_def by (rule sublist_concat_map)
  then show "sublist p (lower (strip s)) \<Longrightarrow> sublist p (lower s)"
    using sublist_order.order.trans by blast
qed

lemma name_loop_no_phrase:
  "\<forall>p\<in>set ps. \<not> py_in p user_lower \<Longrightarrow> name_loop ps user_input user_lower = Inr None"
  by (induction ps) simp_all

lemma no_lead_in_loop:
  assumes "\<not> contains_lead_in msg"
  shows "name_loop name_patterns (strip msg) (lower (strip msg)) = Inr None"
proof (rule name_loop_no_phrase)
  show "\<forall>p\<in>set name_patterns. \<not> py_in p (lower (strip msg))"
    using assms lower_strip_sublist
    by (auto simp: contains_lead_in_def list_ex_iff py_in_sublist)
qed

lemma first_turn_with_name:
  assumes "detect_name_in_message user_input = Inr (Some n)" and "n \<noteq> []"
  shows "\<exists>reply. generate_response init_pypal clock r user_input
           = Inr (reply, \<lparr>user_name = Some n, conversation_started = True\<rparr>)"
proof -
  obtain reply where
    "return_choice \<lparr>user_name = Some n, conversation_started = True\<rparr> (name_responses (Some n)) r
       = Inr (reply, \<lparr>user_name = Some n, conversation_started = True\<rparr>)"
    using return_choice_member [OF name_responses_nonempty(1)] by blast
  then show ?thesis
    using assms by (simp add: generate_response_def init_pypal_def)
qed

subsection \<open>The time string and the log entry\<close>

lemma isdigit_digit_chr: "isdigit_chr (digit_chr d)"
  by (simp add: isdigit_chr_def digit_chr_def)

lemma dec2_digits: "length (dec2 n) = 2" "list_all isdigit_chr (dec2 n)"
  by (simp_all add: dec2_def isdigit_digit_chr)

lemma dec4_digits: "length (dec4 n) = 4" "list_all isdigit_chr (dec4 n)"
  by (simp_all add: dec4_def isdigit_digit_chr)

lemma month_names_words: "list_all (\<lambda>w. w \<noteq> [] \<and> list_all isword_chr w) month_names"
  by code_simp

lemma month_names_length: "length month_names = 12"
  by (simp add: month_names_def)

lemma month_name_word:
  assumes "1 \<le> m" and "m \<le> 12"
  shows "month_name m \<noteq> [] \<and> list_all isword_chr (month_name m)"
proof -
  have "m - 1 < length month_names" using assms by (simp add: month_names_length)
  then have "month_names ! (m - 1) \<in> set month_names" by (rule nth_mem)
  with month_names_words show ?thesis by (simp add: month_name_def list_all_iff)
qed

lemma time_pattern_current_time:
  assumes "valid_datetime now"
  shows "time_pattern (get_current_time now)"
proof -
  from assms have m: "1 \<le> month now" "month now \<le> 12" by (simp_all add: valid_datetime_def)
  have ap: "am_pm (hour now) = (lit ''AM'') \<or> am_pm (hour now) = (lit ''PM'')" by (simp add: am_pm_def)
  show ?thesis
    unfolding time_pattern_def get_current_time_def
    using dec2_digits dec4_digits month_name_word [OF m] ap by blast
qed

lemma dec_value_dec2: "n < 100 \<Longrightarrow> dec_value (dec2 n) = n"
  by (simp add: dec_value_def dec2_def digit_chr_def)

lemma decimal_digits_sum:
  "1000 * (n div 1000) + 100 * (n div 100 mod 10) + 10 * (n div 10 mod 10) + n mod 10 = (n::nat)"
proof -
  have d: "n div 100 = n div 10 div 10" "n div 1000 = n div 10 div 10 div 10"
    by (simp_all add: div_mult2_eq)
  have a: "n = 10 * (n div 10) + n mod 10" by simp
  have b: "n div 10 = 10 * (n div 10 div 10) + n div 10 mod 10" by simp
  have c: "n div 10 div 10 = 10 * (n div 10 div 10 div 10) + n div 10 div 10 mod 10" by simp
  show ?thesis unfolding d using a b c by linarith
qed

lemma dec_value_dec4: "n < 10000 \<Longrightarrow> dec_value (dec4 n) = n"
  by (simp add: dec_value_def dec4_def digit_chr_def decimal_digits_sum)

lemma shows_time_current_time:
  assumes "valid_datetime now"
  shows "shows_time (get_current_time now) now"
proof -
  have "hour now mod 12 < 12" by simp
  then have "hour now mod 12 < 100" by linarith
  then have r1: "hour12 (hour now) < 100" by (simp add: hour12_def)
  from assms have r: "minute now < 100" "day now < 100" "year now < 10000"
    by (simp_all add: valid_datetime_def)
  have h: "hour12 (hour now) = (if hour now mod 12 = 0 then 12 else hour now mod 12)"
    by (simp add: hour12_def)
  have "get_current_time now =
      lit ''It's currently '' @ dec2 (hour12 (hour now)) @ lit '':'' @ dec2 (minute now) @ lit '' ''
        @ am_pm (hour now) @ lit '' on '' @ month_name (month now) @ lit '' '' @ dec2 (day now)
        @ lit '', '' @ dec4 (year now)"
    by (simp add: get_current_time_def)
  moreover have "dec_value (dec2 (hour12 (hour now))) = (if hour now mod 12 = 0 then 12 else hour now mod 12)"
    using dec_value_dec2 [OF r1] h by simp
  moreover have "am_pm (hour now) = (if hour now < 12 then lit ''AM'' else lit ''PM'')"
    by (simp add: am_pm_def)
  moreover have "month_name (month now) = month_names ! (month now - 1)"
    by (simp add: month_name_def)
  ultimately show ?thesis
    unfolding shows_time_def
    using dec2_digits dec4_digits dec_value_dec2 [OF r(1)] dec_value_dec2 [OF r(2)]
      dec_value_dec4 [OF r(3)]
    by blast
qed

lemma time_responses_length: "length (time_responses u clock) = 3"
  by (simp add: time_responses_def)

lemma time_responses_nth:
  "\<exists>pre suf. time_responses u clock ! (r mod 3) = pre @ get_current_time (clock (r mod 3)) @ suf
     \<and> ((r mod 3 = 0 \<and> pre = [] \<and> suf = [])
          \<or> (r mod 3 = 1 \<and> pre = [] \<and> suf = lit '' '' @ emoji_clock)
          \<or> (r mod 3 = 2 \<and> pre = lit ''Sure thing'' @ name_slot u @ lit ''! '' \<and> suf = []))"
proof -
  have "r mod 3 < 3" by simp
  then consider "r mod 3 = 0" | "r mod 3 = 1" | "r mod 3 = 2" by linarith
  then show ?thesis
  proof cases
    case 1
    then show ?thesis
      by (intro exI [of _ "[]"]) (simp add: time_responses_def)
  next
    case 2
    then show ?thesis
      by (intro exI [of _ "[]"] exI [of _ "lit '' '' @ emoji_clock"]) (simp add: time_responses_def)
  next
    case 3
    then show ?thesis
      by (intro exI [of _ "lit ''Sure thing'' @ name_slot u @ lit ''! ''"] exI [of _ "[]"])
        (simp add: time_responses_def)
  qed
qed

lemma digit_chr_not_newline: "digit_chr d \<noteq> newline"
  by (simp add: digit_chr_def newline_def)

lemma separators_no_newline:
  "newline \<notin> set (lit ''-'')" "newline \<notin> set (lit '' '')" "newline \<notin> set (lit '':'')"
  "newline \<notin> set (lit ''['')" "newline \<notin> set (lit ''] '')" "newline \<notin> set (lit '': '')"
  by code_simp+

lemma log_timestamp_no_newline: "newline \<notin> set (log_timestamp now)"
  using digit_chr_not_newline [symmetric] separators_no_newline
  by (auto simp: log_timestamp_def dec2_def dec4_def)

lemma line_count_append: "line_count (a @ b) = line_count a + line_count b"
  by (simp add: line_count_def)

lemma line_count_no_newline: "newline \<notin> set s \<Longrightarrow> line_count s = 0"
  by (auto simp: line_count_def filter_empty_conv)

lemma line_count_log_entry:
  "line_count (log_entry now sender message) = Suc (line_count sender + line_count message)"
proof -
  have "line_count (lit ''['') = 0" "line_count (lit ''] '') = 0" "line_count (lit '': '') = 0"
    by (simp_all add: line_count_no_newline separators_no_newline)
  moreover have "line_count [newline] = 1" by (simp add: line_count_def)
  moreover have "line_count (log_timestamp now) = 0"
    by (rule line_count_no_newline [OF log_timestamp_no_newline])
  ultimately show ?thesis
    by (simp only: log_entry_def line_count_append)
qed

subsection \<open>Evaluated examples\<close>

lemma alice_first_turn:
  "generate_response init_pypal sample_clock 2 (lit ''my name is Alice'')
     = Inr ((lit ''Hello Alice! What a lovely name. What would you like to talk about?''),
            \<lparr>user_name = Some (lit ''Alice''), conversation_started = True\<rparr>)"
  by code_simp

lemma bob_extracted: "detect_name_in_message (lit ''i'm bob!'') = Inr (Some (lit ''Bob''))"
  by code_simp

lemma bob_first_turn:
  "generate_response init_pypal sample_clock 2 (lit ''i'm bob!'')
     = Inr ((lit ''Hello Bob! What a lovely name. What would you like to talk about?''),
            \<lparr>user_name = Some (lit ''Bob''), conversation_started = True\<rparr>)"
  by code_simp

lemma bye_now_friends_no_name: "detect_name_in_message (lit ''bye now friends'') = Inr None"
  by code_simp

lemma hi_bye_intents:
  "intent_matches (lit ''hi, bye'') Greeting" "intent_matches (lit ''hi, bye'') Farewell"
  "first_matching_intent (lit ''hi, bye'') = Some Farewell"
  by code_simp+

lemma time_to_stop_intent: "first_matching_intent (lit ''time to stop'') = Some Farewell"
  by code_simp

lemma bye_hello_intents:
  "first_matching_intent (lit ''bye'') = Some Farewell" "first_matching_intent (lit ''hello'') = Some Greeting"
  by code_simp+

lemma farewell_alice: "list_all (sublist (lit ''Alice'')) (goodbye_responses (Some (lit ''Alice'')))"
  by code_simp

lemma alice_extracted: "detect_name_in_message (lit ''My name is Alice'') = Inr (Some (lit ''Alice''))"
  by code_simp
lemma sam_extracted: "detect_name_in_message (lit ''Sam'') = Inr (Some (lit ''Sam''))"
  by code_simp
lemma cats_no_name: "detect_name_in_message (lit ''I like cats'') = Inr None"
  by code_simp
lemma sam_no_lead_in: "\<not> contains_lead_in (lit ''Sam'')"
  by code_simp
lemma sam_rule: "length (split (strip (lit ''Sam''))) \<le> 2 \<and> isalpha (replace_spaces (strip (lit ''Sam'')))
    \<and> title (strip (lit ''Sam'')) = (lit ''Sam'')"
  by code_simp
lemma cats_tokens: "length (split (strip (lit ''I like cats''))) = 3"
  by code_simp

lemma later_phrase_example:
  "first_lead_in (lit ''i'm 5 call me bob'') = Some (lit ''i'm'')"
  "spec_candidate (lit ''i'm'') (lit ''i'm 5 call me bob'') = (lit ''5'')"
  "spec_lead_in_name (lit ''i'm 5 call me bob'') = None"
  "detect_name_in_message (lit ''i'm 5 call me bob'') = Inr (Some (lit ''Bob''))"
  by code_simp+

lemma fallback_example:
  "first_lead_in (lit ''I am'') = Some (lit ''i am'')"
  "spec_candidate (lit ''i am'') (lit ''I am'') = []"
  "spec_lead_in_name (lit ''I am'') = None"
  "detect_name_in_message (lit ''I am'') = Inr (Some (lit ''I Am''))"
  by code_simp+

lemma leading_punctuation_example:
  "first_lead_in (lit ''my name is !bob'') = Some (lit ''my name is'')"
  "spec_candidate (lit ''my name is'') (lit ''my name is !bob'') = (lit ''!bob'')"
  "spec_lead_in_name (lit ''my name is !bob'') = None"
  "detect_name_in_message (lit ''my name is !bob'') = Inr (Some (lit ''Bob''))"
  by code_simp+

lemma call_me_accepted:
  "List.find (accepted (strip (lit ''i'm 5 call me bob''))) name_patterns = Some (lit ''call me'')"
  "title (candidate (strip (lit ''i'm 5 call me bob'')) (lit ''call me'')) = (lit ''Bob'')"
  by code_simp+

lemma what_time_intent: "first_matching_intent (lit ''what time is it?'') = Some TimeQuery"
  by code_simp

lemma sample_time_valid: "valid_datetime sample_time"
  by code_simp

lemma sample_time_text: "get_current_time sample_time = (lit ''It's currently 09:30 AM on November 04, 2026'')"
  by code_simp

lemma what_time_reply:
  "generate_response awaiting_intents sample_clock 0 (lit ''what time is it?'')
     = Inr ((lit ''It's currently 09:30 AM on November 04, 2026''), awaiting_intents)"
  by code_simp

lemma you_hi_logged:
  "log_message init_pypal sample_time Completes (lit ''You'') (lit ''hi'') empty_world
     = Inr (init_pypal, \<lparr>log_file = (lit ''[2026-11-04 09:30:00] You: hi'') @ [newline], console = []\<rparr>)"
  by code_simp

lemma you_hi_no_newline: "newline \<notin> set (lit ''You'')" "newline \<notin> set (lit ''hi'')"
  by code_simp+

lemma bob_ascii: "isascii (lit ''i'm bob!'')"
  by code_simp

lemma call_me_ascii: "isascii (lit ''i'm 5 call me bob'')"
  by code_simp

subsection \<open>Claims\<close>

text \<open>
  C1. For every non-empty input and every state of the object, \<open>generate_response\<close>
  returns without an exception (every function of the model is total, and the result is
  on the \<open>Inr\<close> side) and the reply is a non-empty string. Called on the initial state
  (no user name, conversation not started), it leaves the conversation started.
\<close>

theorem generate_response_total:
  assumes "user_input \<noteq> []"
  shows "\<exists>reply self'. generate_response self clock r user_input = Inr (reply, self')
           \<and> reply \<noteq> []
           \<and> (user_name self = None \<and> \<not> conversation_started self \<longrightarrow> conversation_started self')"
proof (cases "\<not> truthy (user_name self) \<and> \<not> conversation_started self")
  case True
  obtain res where res: "detect_name_in_message user_input = Inr res"
    using detect_name_returns by blast
  show ?thesis
  proof (cases "truthy res")
    case t: True
    let ?s = "self\<lparr>user_name := res, conversation_started := True\<rparr>"
    obtain reply where "return_choice ?s (name_responses res) r = Inr (reply, ?s)" "reply \<noteq> []"
      using return_choice_reply [OF name_responses_nonempty] by blast
    with True res t show ?thesis by (simp add: generate_response_def)
  next
    case False
    with True res show ?thesis by (simp add: generate_response_def no_name_reply_def)
  qed
next
  case False
  then have started: "user_name self = None \<longrightarrow> conversation_started self" by auto
  have "\<exists>reply. generate_response self clock r user_input = Inr (reply, self) \<and> reply \<noteq> []"
    using False return_choice_reply [OF variants_nonempty]
    by (simp add: generate_response_conversing)
  then obtain reply where "generate_response self clock r user_input = Inr (reply, self)" "reply \<noteq> []"
    by blast
  with started show ?thesis by auto
qed

theorem generate_response_total_witness:
  "(lit ''hello'') \<noteq> [] \<and>
   (\<exists>reply self'. generate_response init_pypal sample_clock 0 (lit ''hello'') = Inr (reply, self')
      \<and> reply \<noteq> []
      \<and> (user_name init_pypal = None \<and> \<not> conversation_started init_pypal
           \<longrightarrow> conversation_started self'))"
  using generate_response_total [of "(lit ''hello'')" init_pypal sample_clock 0]
  by simp

text \<open>
  C4. In every session (a run of turns from the initial state), once \<open>user_name\<close> holds a
  name it holds the same name after any further turns, whatever their inputs. In such a
  state \<open>generate_response\<close> returns the object as it was: name extraction is not
  reached, since it is guarded by "no name and conversation not started".
\<close>

theorem user_name_never_changes:
  assumes "run_session init_pypal turns = Inr self" and "user_name self = Some name"
  shows "(\<exists>self'. run_session init_pypal (turns @ later) = Inr self' \<and> user_name self' = Some name)
         \<and> (\<exists>reply. generate_response self clock r user_input = Inr (reply, self))"
proof -
  have "user_name init_pypal \<noteq> None \<longrightarrow> conversation_started init_pypal"
    by (simp add: init_pypal_def)
  from started_inv_run [OF this assms(1)] assms(2)
  have conv: "truthy (user_name self) \<or> conversation_started self" by simp
  have "run_session init_pypal (turns @ later) = Inr self"
    using assms(1) run_session_conversing [OF conv] by (simp add: run_session_append)
  moreover have "\<exists>reply. generate_response self clock r user_input = Inr (reply, self)"
    using generate_response_conversing_member [OF conv] by blast
  ultimately show ?thesis using assms(2) by simp
qed

theorem user_name_never_changes_witness:
  "run_session init_pypal [(sample_clock, 2, (lit ''my name is Alice''))]
     = Inr \<lparr>user_name = Some (lit ''Alice''), conversation_started = True\<rparr>
   \<and> (\<exists>self'. run_session init_pypal
          ([(sample_clock, 2, (lit ''my name is Alice''))] @ [(sample_clock, 0, (lit ''my name is Bob''))]) = Inr self'
        \<and> user_name self' = Some (lit ''Alice''))"
proof -
  have run: "run_session init_pypal [(sample_clock, 2, (lit ''my name is Alice''))]
     = Inr \<lparr>user_name = Some (lit ''Alice''), conversation_started = True\<rparr>"
    by (simp add: alice_first_turn)
  from user_name_never_changes [OF run, of "(lit ''Alice'')" "[(sample_clock, 0, (lit ''my name is Bob''))]"] run
  show ?thesis by simp
qed

text \<open>
  C10, as stated, fails. \<^verbatim>\<open>str.isalpha\<close> and \<^verbatim>\<open>str.title\<close> follow Unicode:
  U+02BC, the modifier letter apostrophe, is a letter without case, so the input
  "my name is o[U+02BC]neil" is accepted and \<^verbatim>\<open>title\<close> upper-cases the letter after it.
  The stored name is "O[U+02BC]Neil": one token of letters, with an upper-case letter
  inside, so the token is not in title case and the invariant is broken.
\<close>

theorem user_name_invariant_counterexample:
  "detect_name_in_message (lit ''my name is o'' @ [0x2BC] @ lit ''neil'')
     = Inr (Some (lit ''O'' @ [0x2BC] @ lit ''Neil''))
   \<and> length (split (lit ''O'' @ [0x2BC] @ lit ''Neil'')) = 1
   \<and> isalpha (lit ''O'' @ [0x2BC] @ lit ''Neil'')
   \<and> \<not> list_all title_cased (split (lit ''O'' @ [0x2BC] @ lit ''Neil''))
   \<and> \<not> valid_name (lit ''O'' @ [0x2BC] @ lit ''Neil'')
   \<and> generate_response init_pypal sample_clock 2 (lit ''my name is o'' @ [0x2BC] @ lit ''neil'')
       = Inr (lit ''Hello O'' @ [0x2BC]
                @ lit ''Neil! What a lovely name. What would you like to talk about?'',
              \<lparr>user_name = Some (lit ''O'' @ [0x2BC] @ lit ''Neil''), conversation_started = True\<rparr>)
   \<and> \<not> name_inv \<lparr>user_name = Some (lit ''O'' @ [0x2BC] @ lit ''Neil''), conversation_started = True\<rparr>"
  by (intro conjI; code_simp)

text \<open>
  C10, amended. For ASCII input \<open>detect_name_in_message\<close> returns only valid names
  (non-empty, at most two tokens, letters and blanks only, every token in title case),
  and \<open>name_inv\<close> (the user name is unset or a valid name) holds initially, is kept by
  \<open>generate_response\<close> on ASCII input and so holds in every state reached by a session
  whose inputs are ASCII.
\<close>

theorem user_name_invariant:
  "(isascii msg \<and> detect_name_in_message msg = Inr (Some n) \<longrightarrow> valid_name n)
   \<and> name_inv init_pypal
   \<and> (name_inv self \<and> isascii user_input
        \<and> generate_response self clock r user_input = Inr (reply, self')
        \<longrightarrow> name_inv self')
   \<and> (ascii_turns turns \<and> run_session init_pypal turns = Inr final \<longrightarrow> name_inv final)"
proof -
  have init: "name_inv init_pypal" by (simp add: name_inv_def init_pypal_def)
  show ?thesis
    using init detect_name_valid name_inv_step name_inv_run [OF init] by blast
qed

theorem user_name_invariant_witness:
  "isascii (lit ''i'm bob!'')
   \<and> detect_name_in_message (lit ''i'm bob!'') = Inr (Some (lit ''Bob'')) \<and> valid_name (lit ''Bob'')
   \<and> name_inv init_pypal
   \<and> generate_response init_pypal sample_clock 2 (lit ''i'm bob!'')
       = Inr (lit ''Hello Bob! What a lovely name. What would you like to talk about?'',
              \<lparr>user_name = Some (lit ''Bob''), conversation_started = True\<rparr>)
   \<and> ascii_turns [(sample_clock, 2, lit ''i'm bob!'')]
   \<and> run_session init_pypal [(sample_clock, 2, lit ''i'm bob!'')]
       = Inr \<lparr>user_name = Some (lit ''Bob''), conversation_started = True\<rparr>
   \<and> name_inv \<lparr>user_name = Some (lit ''Bob''), conversation_started = True\<rparr>"
proof -
  have run: "run_session init_pypal [(sample_clock, 2, lit ''i'm bob!'')]
       = Inr \<lparr>user_name = Some (lit ''Bob''), conversation_started = True\<rparr>"
    by (simp add: bob_first_turn)
  have a: "ascii_turns [(sample_clock, 2, lit ''i'm bob!'')]" by (simp add: bob_ascii)
  from user_name_invariant [where msg = "lit ''i'm bob!''" and n = "lit ''Bob''"
      and self = init_pypal and user_input = "lit ''i'm bob!''" and clock = sample_clock and r = 2
      and reply = "lit ''Hello Bob! What a lovely name. What would you like to talk about?''"
      and self' = "\<lparr>user_name = Some (lit ''Bob''), conversation_started = True\<rparr>"
      and turns = "[(sample_clock, 2, lit ''i'm bob!'')]"
      and final = "\<lparr>user_name = Some (lit ''Bob''), conversation_started = True\<rparr>"]
    bob_extracted bob_first_turn bob_ascii run a
  show ?thesis by simp
qed

text \<open>
  C7. When no name is extracted on the first turn, the reply is the one fixed
  "didn't catch your name" string, whatever else the input contains, and the post-state
  has the flag set and no name. From that state every later session leaves the state as
  it is (extraction is never retried), and every later reply is drawn from the variants
  of the first matching intent of the ordered evaluation, with no name.
\<close>

theorem no_name_on_first_turn:
  assumes "detect_name_in_message user_input = Inr None"
  shows "generate_response init_pypal clock r user_input = Inr (no_name_reply, awaiting_intents)
         \<and> run_session awaiting_intents later = Inr awaiting_intents
         \<and> (\<exists>i reply. first_matching_intent msg = Some i
               \<and> generate_response awaiting_intents clock' r' msg = Inr (reply, awaiting_intents)
               \<and> reply \<in> set (variants i None clock'))"
proof -
  have first: "generate_response init_pypal clock r user_input = Inr (no_name_reply, awaiting_intents)"
    using assms by (simp add: generate_response_def init_pypal_def awaiting_intents_def)
  have conv: "truthy (user_name awaiting_intents) \<or> conversation_started awaiting_intents"
    by (simp add: awaiting_intents_def)
  have u: "user_name awaiting_intents = None" by (simp add: awaiting_intents_def)
  show ?thesis
    using first run_session_conversing [OF conv, of later]
      generate_response_conversing_member [OF conv, of msg clock' r']
    by (simp add: u)
qed

theorem no_name_on_first_turn_witness:
  "detect_name_in_message (lit ''bye now friends'') = Inr None
   \<and> generate_response init_pypal sample_clock 0 (lit ''bye now friends'') = Inr (no_name_reply, awaiting_intents)
   \<and> run_session awaiting_intents [(sample_clock, 0, (lit ''my name is Bob''))] = Inr awaiting_intents
   \<and> (\<exists>i reply. first_matching_intent (lit ''my name is Bob'') = Some i
         \<and> generate_response awaiting_intents sample_clock 0 (lit ''my name is Bob'') = Inr (reply, awaiting_intents)
         \<and> reply \<in> set (variants i None sample_clock))"
  using no_name_on_first_turn [OF bye_now_friends_no_name, of sample_clock 0
      "[(sample_clock, 0, (lit ''my name is Bob''))]" "(lit ''my name is Bob'')" sample_clock 0]
    bye_now_friends_no_name
  by simp

text \<open>
  C5. On every turn after the first (the conversation has started), the reply is drawn
  from the variants of the first intent, in the order farewell, time query, greeting,
  "how are you", fallback, one of whose phrases occurs in the lower-cased input; the
  state is unchanged. The input "hi, bye" matches greeting and farewell, and its reply
  is a farewell variant.
\<close>

theorem ordered_intent_evaluation:
  assumes "conversation_started self"
  shows "(\<exists>i reply. first_matching_intent user_input = Some i
            \<and> generate_response self clock r user_input = Inr (reply, self)
            \<and> reply \<in> set (variants i (user_name self) clock))
         \<and> intent_matches (lit ''hi, bye'') Greeting \<and> intent_matches (lit ''hi, bye'') Farewell
         \<and> (\<exists>reply. generate_response self clock r (lit ''hi, bye'') = Inr (reply, self)
               \<and> reply \<in> set (goodbye_responses (user_name self)))"
proof -
  from assms have conv: "truthy (user_name self) \<or> conversation_started self" by simp
  show ?thesis
    using generate_response_conversing_member [OF conv, of user_input clock r]
      generate_response_conversing_member [OF conv, of "(lit ''hi, bye'')" clock r]
    by (simp add: hi_bye_intents)
qed

theorem ordered_intent_evaluation_witness:
  "conversation_started awaiting_intents
   \<and> first_matching_intent (lit ''time to stop'') = Some Farewell
   \<and> (\<exists>reply. generate_response awaiting_intents sample_clock 0 (lit ''time to stop'') = Inr (reply, awaiting_intents)
         \<and> reply \<in> set (goodbye_responses None))"
  using ordered_intent_evaluation [of awaiting_intents "(lit ''time to stop'')" sample_clock 0]
    time_to_stop_intent
  by (simp add: awaiting_intents_def)

text \<open>
  C6. In \<open>Conversing\<close> with user name "Alice", every reply to "bye" (for every draw \<open>r\<close>)
  is a farewell variant and contains "Alice". In \<open>Conversing\<close> without a name, every
  reply to "hello" is one of the four greeting literals that have no name slot.
\<close>

theorem name_interpolation:
  "(\<exists>reply. generate_response \<lparr>user_name = Some (lit ''Alice''), conversation_started = True\<rparr> clock r (lit ''bye'')
              = Inr (reply, \<lparr>user_name = Some (lit ''Alice''), conversation_started = True\<rparr>)
        \<and> reply \<in> set (goodbye_responses (Some (lit ''Alice''))) \<and> sublist (lit ''Alice'') reply)
   \<and> (\<exists>reply. generate_response \<lparr>user_name = None, conversation_started = True\<rparr> clock r (lit ''hello'')
              = Inr (reply, \<lparr>user_name = None, conversation_started = True\<rparr>)
        \<and> reply \<in> set [(lit ''Hello there! How can I help you today? '') @ emoji_smile,
                         (lit ''Hi! Great to meet you! What's on your mind?''),
                         (lit ''Hey! I'm here and ready to chat!''),
                         (lit ''Hello! How are you doing today?'')])"
proof -
  let ?a = "\<lparr>user_name = Some (lit ''Alice''), conversation_started = True\<rparr>"
  let ?n = "\<lparr>user_name = None, conversation_started = True\<rparr>"
  have "truthy (user_name ?a) \<or> conversation_started ?a" by simp
  from generate_response_conversing_member [OF this, of "(lit ''bye'')" clock r]
  obtain reply where a: "generate_response ?a clock r (lit ''bye'') = Inr (reply, ?a)"
      "reply \<in> set (goodbye_responses (Some (lit ''Alice'')))"
    by (auto simp: bye_hello_intents)
  from a(2) farewell_alice have "sublist (lit ''Alice'') reply" by (simp add: list_all_iff)
  with a have A: "\<exists>reply. generate_response ?a clock r (lit ''bye'') = Inr (reply, ?a)
        \<and> reply \<in> set (goodbye_responses (Some (lit ''Alice''))) \<and> sublist (lit ''Alice'') reply" by blast
  have "truthy (user_name ?n) \<or> conversation_started ?n" by simp
  from generate_response_conversing_member [OF this, of "(lit ''hello'')" clock r]
  obtain reply' where n: "generate_response ?n clock r (lit ''hello'') = Inr (reply', ?n)"
      "reply' \<in> set (greeting_responses None)"
    by (auto simp: bye_hello_intents)
  from n(2) have "reply' \<in> set [(lit ''Hello there! How can I help you today? '') @ emoji_smile,
                         (lit ''Hi! Great to meet you! What's on your mind?''),
                         (lit ''Hey! I'm here and ready to chat!''),
                         (lit ''Hello! How are you doing today?'')]"
    by (simp add: greeting_responses_def)
  with n(1) A show ?thesis by blast
qed

text \<open>
  C3. The four instances: "My name is Alice" gives "Alice", "i'm bob!" gives "Bob", "Sam"
  gives "Sam" and "I like cats" gives no name, both as results of
  \<open>detect_name_in_message\<close> and as the name captured by the first turn. "Sam" contains
  no lead-in phrase, and for every input without a lead-in phrase the whole trimmed input
  is accepted, title-cased, if and only if it has at most two tokens and is alphabetic
  once its blanks are removed.
\<close>

theorem name_extraction_examples:
  "detect_name_in_message (lit ''My name is Alice'') = Inr (Some (lit ''Alice''))
   \<and> detect_name_in_message (lit ''i'm bob!'') = Inr (Some (lit ''Bob''))
   \<and> detect_name_in_message (lit ''Sam'') = Inr (Some (lit ''Sam''))
   \<and> detect_name_in_message (lit ''I like cats'') = Inr None
   \<and> (\<exists>reply. generate_response init_pypal clock r (lit ''My name is Alice'')
          = Inr (reply, \<lparr>user_name = Some (lit ''Alice''), conversation_started = True\<rparr>))
   \<and> (\<exists>reply. generate_response init_pypal clock r (lit ''i'm bob!'')
          = Inr (reply, \<lparr>user_name = Some (lit ''Bob''), conversation_started = True\<rparr>))
   \<and> (\<exists>reply. generate_response init_pypal clock r (lit ''Sam'')
          = Inr (reply, \<lparr>user_name = Some (lit ''Sam''), conversation_started = True\<rparr>))
   \<and> (\<exists>reply. generate_response init_pypal clock r (lit ''I like cats'')
          = Inr (reply, \<lparr>user_name = None, conversation_started = True\<rparr>))
   \<and> \<not> contains_lead_in (lit ''Sam'')
   \<and> (\<not> contains_lead_in msg \<longrightarrow>
        detect_name_in_message msg =
          Inr (if length (split (strip msg)) \<le> 2 \<and> isalpha (replace_spaces (strip msg))
               then Some (title (strip msg)) else None))"
proof -
  have cats: "\<exists>reply. generate_response init_pypal clock r (lit ''I like cats'')
          = Inr (reply, \<lparr>user_name = None, conversation_started = True\<rparr>)"
    using cats_no_name by (simp add: generate_response_def init_pypal_def)
  have rule: "\<not> contains_lead_in msg \<longrightarrow>
        detect_name_in_message msg =
          Inr (if length (split (strip msg)) \<le> 2 \<and> isalpha (replace_spaces (strip msg))
               then Some (title (strip msg)) else None)"
    using no_lead_in_loop [of msg]
    by (simp add: detect_name_in_message_def Let_def)
  show ?thesis
    using alice_extracted bob_extracted sam_extracted cats_no_name sam_no_lead_in
      first_turn_with_name [OF alice_extracted _, of clock r]
      first_turn_with_name [OF bob_extracted _, of clock r]
      first_turn_with_name [OF sam_extracted _, of clock r] cats rule
    by simp
qed

theorem name_extraction_examples_witness:
  "\<not> contains_lead_in (lit ''Sam'')
   \<and> length (split (strip (lit ''Sam''))) \<le> 2 \<and> isalpha (replace_spaces (strip (lit ''Sam'')))
   \<and> title (strip (lit ''Sam'')) = (lit ''Sam'')
   \<and> detect_name_in_message (lit ''Sam'') = Inr (Some (lit ''Sam''))"
  using name_extraction_examples [of sample_clock 0 "(lit ''Sam'')"] sam_no_lead_in sam_rule
  by simp

text \<open>
  C2, as stated, fails. In "i'm 5 call me bob" the first lead-in phrase is "i'm" and its
  candidate "5" is rejected, yet the later phrase "call me" yields the name "Bob". In
  "I am" nothing follows the phrase, yet the whole input is taken as the name "I Am". In
  "my name is !bob" the candidate keeps its leading "!" under trailing-only stripping
  and is rejected, yet the source strips both ends and yields "Bob". In
  "[U+0130][U+0130][U+0130] my name is Bob" the text after the phrase is " Bob", yet
  the source finds the phrase in the lower-cased input, which is three code points longer,
  cuts the input at that index and yields "B".
\<close>

theorem first_lead_in_alone_counterexample:
  "contains_lead_in (lit ''i'm 5 call me bob'')
   \<and> first_lead_in (lit ''i'm 5 call me bob'') = Some (lit ''i'm'')
   \<and> spec_candidate (lit ''i'm'') (lit ''i'm 5 call me bob'') = lit ''5''
   \<and> spec_lead_in_name (lit ''i'm 5 call me bob'') = None
   \<and> detect_name_in_message (lit ''i'm 5 call me bob'') = Inr (Some (lit ''Bob''))
   \<and> contains_lead_in (lit ''I am'')
   \<and> spec_lead_in_name (lit ''I am'') = None
   \<and> detect_name_in_message (lit ''I am'') = Inr (Some (lit ''I Am''))
   \<and> contains_lead_in (lit ''my name is !bob'')
   \<and> spec_lead_in_name (lit ''my name is !bob'') = None
   \<and> detect_name_in_message (lit ''my name is !bob'') = Inr (Some (lit ''Bob''))
   \<and> contains_lead_in ([0x130, 0x130, 0x130] @ lit '' my name is Bob'')
   \<and> spec_lead_in_name ([0x130, 0x130, 0x130] @ lit '' my name is Bob'') = Some (lit ''Bob'')
   \<and> detect_name_in_message ([0x130, 0x130, 0x130] @ lit '' my name is Bob'') = Inr (Some (lit ''B''))"
  by (intro conjI; code_simp)

text \<open>
  C2, amended. For ASCII input, the lead-in phrases are tried in list order, and a
  rejected phrase does not end the search. A phrase is accepted when it occurs in the
  lower-cased trimmed input and its candidate (the first token of the trimmed text after
  its first occurrence, with \<^verbatim>\<open>.,!?\<close> removed at both ends) is non-empty and
  alphabetic. The extracted name is the title-cased candidate of the first accepted
  phrase.
\<close>

theorem first_accepted_lead_in:
  assumes "isascii msg" and "List.find (accepted (strip msg)) name_patterns = Some p"
  shows "detect_name_in_message msg = Inr (Some (title (candidate (strip msg) p)))"
  using assms(2) by (simp add: detect_name_characterisation [OF assms(1)] Let_def)

theorem first_accepted_lead_in_witness:
  "isascii (lit ''i'm 5 call me bob'')
   \<and> List.find (accepted (strip (lit ''i'm 5 call me bob''))) name_patterns = Some (lit ''call me'')
   \<and> detect_name_in_message (lit ''i'm 5 call me bob'') = Inr (Some (lit ''Bob''))"
  using first_accepted_lead_in [OF call_me_ascii call_me_accepted(1)] call_me_accepted call_me_ascii
  by simp

text \<open>
  C8. In \<open>Conversing\<close>, for every input whose intent by the ordered evaluation is the
  time query, the reply embeds a time string that shows the clock as it is read during
  this very call (reading number \<open>r mod 3\<close>; the object stores no time): its fields are
  the hour on the 12-hour clock, the minute, AM or PM, the month's name, the day and the
  year of that reading, and it matches the pattern. The time string stands alone, or is
  followed by the clock emoji, or is preceded by "Sure thing...! ".
\<close>

theorem time_query_reply:
  assumes "conversation_started self" and "first_matching_intent user_input = Some TimeQuery"
    and "valid_datetime (clock 0)" and "valid_datetime (clock 1)" and "valid_datetime (clock 2)"
  shows "\<exists>reply t pre suf. generate_response self clock r user_input = Inr (reply, self)
           \<and> reply = pre @ t @ suf
           \<and> shows_time t (clock (r mod 3)) \<and> time_pattern t
           \<and> ((r mod 3 = 0 \<and> pre = [] \<and> suf = [])
                \<or> (r mod 3 = 1 \<and> pre = [] \<and> suf = lit '' '' @ emoji_clock)
                \<or> (r mod 3 = 2 \<and> pre = lit ''Sure thing'' @ name_slot (user_name self) @ lit ''! ''
                     \<and> suf = []))"
proof -
  from assms(1) have conv: "truthy (user_name self) \<or> conversation_started self" by simp
  let ?k = "r mod 3"
  let ?t = "get_current_time (clock ?k)"
  have reply: "generate_response self clock r user_input
      = Inr (time_responses (user_name self) clock ! ?k, self)"
    using assms(2) time_responses_length
    by (simp add: generate_response_conversing [OF conv] return_choice_def choice_def
        time_responses_nonempty)
  have "?k < 3" by simp
  then have "?k = 0 \<or> ?k = 1 \<or> ?k = 2" by linarith
  with assms(3-5) have "valid_datetime (clock ?k)" by auto
  then have t: "shows_time ?t (clock ?k)" "time_pattern ?t"
    by (simp_all add: shows_time_current_time time_pattern_current_time)
  from time_responses_nth [where r = r and u = "user_name self" and clock = clock]
  have "\<exists>pre suf. time_responses (user_name self) clock ! ?k = pre @ ?t @ suf
     \<and> ((?k = 0 \<and> pre = [] \<and> suf = [])
          \<or> (?k = 1 \<and> pre = [] \<and> suf = lit '' '' @ emoji_clock)
          \<or> (?k = 2 \<and> pre = lit ''Sure thing'' @ name_slot (user_name self) @ lit ''! ''
               \<and> suf = []))" .
  then obtain pre suf where shape: "time_responses (user_name self) clock ! ?k = pre @ ?t @ suf"
    and wrap: "(?k = 0 \<and> pre = [] \<and> suf = [])
       \<or> (?k = 1 \<and> pre = [] \<and> suf = lit '' '' @ emoji_clock)
       \<or> (?k = 2 \<and> pre = lit ''Sure thing'' @ name_slot (user_name self) @ lit ''! '' \<and> suf = [])"
    by (elim exE conjE)
  have "generate_response self clock r user_input = Inr (pre @ ?t @ suf, self)"
    using reply shape by simp
  with t wrap show ?thesis by (intro exI [of _ "pre @ ?t @ suf"] exI [of _ ?t] exI [of _ pre] exI [of _ suf]) simp
qed

theorem time_query_reply_witness:
  "conversation_started awaiting_intents
   \<and> first_matching_intent (lit ''what time is it?'') = Some TimeQuery
   \<and> valid_datetime (sample_clock 0) \<and> valid_datetime (sample_clock 1) \<and> valid_datetime (sample_clock 2)
   \<and> generate_response awaiting_intents sample_clock 0 (lit ''what time is it?'')
       = Inr (lit ''It's currently 09:30 AM on November 04, 2026'', awaiting_intents)
   \<and> shows_time (lit ''It's currently 09:30 AM on November 04, 2026'') sample_time
   \<and> time_pattern (lit ''It's currently 09:30 AM on November 04, 2026'')"
proof -
  have cs: "conversation_started awaiting_intents" by (simp add: awaiting_intents_def)
  have v: "valid_datetime (sample_clock 0)" "valid_datetime (sample_clock 1)"
    "valid_datetime (sample_clock 2)"
    by (simp_all add: sample_clock_def sample_time_valid)
  from time_query_reply [OF cs what_time_intent v, where r = 0]
  obtain reply t pre suf where
    "generate_response awaiting_intents sample_clock 0 (lit ''what time is it?'') = Inr (reply, awaiting_intents)"
    "reply = pre @ t @ suf" "shows_time t (sample_clock 0)" "time_pattern t" "pre = [] \<and> suf = []"
    by auto
  then have "shows_time (lit ''It's currently 09:30 AM on November 04, 2026'') sample_time
      \<and> time_pattern (lit ''It's currently 09:30 AM on November 04, 2026'')"
    using what_time_reply by (simp add: sample_clock_def)
  with cs what_time_intent v what_time_reply show ?thesis by simp
qed

text \<open>
  C9, as stated, fails: the entry of a message that contains a newline is more than one
  line. \<^verbatim>\<open>start_conversation\<close> logs such a message, the welcome followed by the request
  for the name; its entry has two lines.
\<close>

theorem one_line_per_message_counterexample:
  "log_message init_pypal sample_time Completes (lit ''PyPal'')
      ((lit ''Hi there! PyPal here, ready to help and chat!'') @ [newline]
         @ (lit ''What's your name? I'd love to get to know you better!'')) empty_world
     = Inr (init_pypal,
         \<lparr>log_file = (lit ''[2026-11-04 09:30:00] PyPal: Hi there! PyPal here, ready to help and chat!'')
              @ [newline] @ (lit ''What's your name? I'd love to get to know you better!'') @ [newline],
          console = []\<rparr>)
   \<and> line_count ((lit ''[2026-11-04 09:30:00] PyPal: Hi there! PyPal here, ready to help and chat!'')
              @ [newline] @ (lit ''What's your name? I'd love to get to know you better!'') @ [newline]) = 2"
  by (intro conjI; code_simp)

text \<open>
  C9, amended. When the write completes, \<open>log_message\<close> appends exactly the text
  \<^verbatim>\<open>[<timestamp>] <sender>: <message>\<close> and a newline, which is one line when neither
  sender nor message contains a newline. When \<^verbatim>\<open>open\<close> or \<^verbatim>\<open>write\<close> raises, the
  exception is caught and reported on the console. In both cases \<open>log_message\<close>
  returns normally and the object, with it the conversation state, is unchanged.
\<close>

theorem log_message_appends_entry:
  "(\<exists>w'. log_message self now Completes sender message w = Inr (self, w')
        \<and> log_file w' = log_file w @ (lit ''['') @ log_timestamp now @ (lit ''] '') @ sender @ (lit '': '') @ message @ [newline]
        \<and> console w' = console w
        \<and> (newline \<notin> set sender \<and> newline \<notin> set message
             \<longrightarrow> line_count (log_file w') = line_count (log_file w) + 1))
   \<and> (\<exists>w'. log_message self now (Raises e k) sender message w = Inr (self, w')
        \<and> console w' = console w @ (lit ''Error logging message: '') @ e @ [newline])"
proof -
  let ?w = "w\<lparr>log_file := log_file w @ log_entry now sender message\<rparr>"
  have ok: "log_message self now Completes sender message w = Inr (self, ?w)"
    by (simp add: log_message_def write_entry_def)
  have "newline \<notin> set sender \<and> newline \<notin> set message
          \<longrightarrow> line_count (log_file ?w) = line_count (log_file w) + 1"
    by (simp add: line_count_append line_count_log_entry line_count_no_newline)
  moreover have "log_file ?w = log_file w @ (lit ''['') @ log_timestamp now @ (lit ''] '') @ sender @ (lit '': '') @ message @ [newline]"
    by (simp add: log_entry_def)
  moreover have "console ?w = console w" by simp
  ultimately have A: "\<exists>w'. log_message self now Completes sender message w = Inr (self, w')
        \<and> log_file w' = log_file w @ (lit ''['') @ log_timestamp now @ (lit ''] '') @ sender @ (lit '': '') @ message @ [newline]
        \<and> console w' = console w
        \<and> (newline \<notin> set sender \<and> newline \<notin> set message
             \<longrightarrow> line_count (log_file w') = line_count (log_file w) + 1)"
    using ok by blast
  have B: "\<exists>w'. log_message self now (Raises e k) sender message w = Inr (self, w')
        \<and> console w' = console w @ (lit ''Error logging message: '') @ e @ [newline]"
    by (simp add: log_message_def write_entry_def)
  from A B show ?thesis by blast
qed

theorem log_message_appends_entry_witness:
  "newline \<notin> set (lit ''You'') \<and> newline \<notin> set (lit ''hi'')
   \<and> log_message init_pypal sample_time Completes (lit ''You'') (lit ''hi'') empty_world
       = Inr (init_pypal, \<lparr>log_file = lit ''[2026-11-04 09:30:00] You: hi'' @ [newline], console = []\<rparr>)
   \<and> line_count (lit ''[2026-11-04 09:30:00] You: hi'' @ [newline]) = line_count (log_file empty_world) + 1"
proof -
  from log_message_appends_entry [of init_pypal sample_time "lit ''You''" "lit ''hi''" empty_world]
    you_hi_no_newline
  obtain w' where w: "log_message init_pypal sample_time Completes (lit ''You'') (lit ''hi'') empty_world
        = Inr (init_pypal, w')"
    and lc: "line_count (log_file w') = line_count (log_file empty_world) + 1"
    by blast
  from w you_hi_logged
  have "w' = \<lparr>log_file = lit ''[2026-11-04 09:30:00] You: hi'' @ [newline], console = []\<rparr>"
    by simp
  then have "log_file w' = lit ''[2026-11-04 09:30:00] You: hi'' @ [newline]"
    by simp
  with lc you_hi_logged you_hi_no_newline show ?thesis by simp
qed

end
